theory Spec2Isabelle
  imports Main "HOL-Library.Multiset"
begin

text \<open>
  A model of the CSS-extraction Babel plugin: its entry visitor (\<open>index.tsx\<close>) and its AST
  builders (\<open>utils/ast-builders.tsx\<close>). Mutation of the AST and of the plugin state is
  explicit state passing; a thrown exception is the \<open>Inl\<close> of a sum. Functions of other
  packages that the builders call (\<open>transformCss\<close>, \<open>isPropValid\<close>) are parameters.
\<close>

section \<open>Abstract syntax of the modules the plugin rewrites\<close>

text \<open>
  The plugin works on a Babel AST. Only the node kinds the plugin inspects or builds are
  given constructors of their own; everything else is carried along unchanged.
\<close>

datatype specifier =
    ImportSpecifier string string
  | ImportDefaultSpecifier string
  | ImportNamespaceSpecifier string

text \<open>
  Expressions. A member expression is the non-computed access \<open>object.property\<close>; an
  arrow function has identifier parameters and an expression body. A JSX element or
  fragment used as an expression is opaque (\<open>JSXNode\<close>).
\<close>

datatype expr =
    Identifier string
  | StringLiteral string
  | NumericLiteral int
  | MemberExpression expr string
  | ArrowFunctionExpression "string list" expr
  | BinaryExpression string expr expr
  | CallExpression expr "expr list"
  | ArrayExpression "expr list"
  | ObjectExpression "property list"
  | JSXNode string
and property =
    ObjectProperty expr expr
  | ObjectMethod string expr
  | SpreadElement expr

text \<open>
  A statement of the module body: an import declaration, a variable declaration with one
  declarator (the shape of a hoisted sheet), or any other statement. Of another
  statement only the nodes the visitor reacts to are kept, in traversal order.
\<close>

datatype site =
    TaggedTemplateSite nat
  | CallSite nat
  | JSXOpeningSite nat

datatype statement =
    ImportDeclaration "specifier list" string
  | VariableDeclaration string string expr
  | OtherStatement "site list"

text \<open>
  The program: its body, the names bound in its scope, and the names the scope counts as
  referenced (references, globals, labels and generated uids).
\<close>

record program =
  body :: "statement list"
  bindings :: "string list"
  references :: "string list"

text \<open>
  JSX. An attribute value is an expression container or a literal node (a string literal, an
  element or a fragment); a container holds an expression or the empty expression \<open>{}\<close>,
  which keeps its source location.
\<close>

type_synonym loc = "nat \<times> nat"

datatype container_expression = JSXEmptyExpression loc | Expression expr

datatype attribute_value = JSXExpressionContainer container_expression | Literal expr

datatype attribute = JSXAttribute string "attribute_value option" | JSXSpreadAttribute expr

record jsx_element =
  elementName :: string
  attributes :: "attribute list"
  children :: string

text \<open>
  The value of a thrown exception: its constructor and its message. The \<open>SyntaxError\<close> of
  the parser behind \<open>template()\<close> is kept without its message.
\<close>

datatype error = TypeError string | Error string | SyntaxError

section \<open>Plugin state\<close>

record compiled_imports =
  styled :: "string option"

record state =
  compiledImports :: "compiled_imports option"
  sheets :: "string \<rightharpoonup> string"
  nonce :: "string option"

text \<open>
  \<open>Metadata\<close>: the plugin state and the path of the call site, through which the builders
  reach the program and its scope.
\<close>

record metadata =
  state :: state
  program :: program

text \<open>
  \<open>pre()\<close>: the state of a module compilation when it starts, \<open>this.sheets = {}\<close> on a
  fresh plugin pass. (The module-level \<open>cache\<close> is not read by any function modelled here.)
\<close>

definition pre :: "string option \<Rightarrow> state" where
  "pre n = \<lparr>compiledImports = None, sheets = Map.empty, nonce = n\<rparr>"

section \<open>Generated identifiers (\<open>scope.generateUidIdentifier('')\<close>)\<close>

text \<open>
  Babel's \<open>generateUid\<close> for the empty name: the candidates are \<open>_\<close>, \<open>_2\<close>, \<open>_3\<close>, ... and the
  first one that is neither bound nor referenced is taken and recorded as referenced.
  \<open>decimal\<close> is the decimal numeral of a number, as string concatenation in JavaScript
  writes it.
\<close>

definition digit_char :: "nat \<Rightarrow> char" where
  "digit_char d = ''0123456789'' ! d"

fun decimal :: "nat \<Rightarrow> string" where
  "decimal n = (if n < 10 then [digit_char n] else decimal (n div 10) @ [digit_char (n mod 10)])"

declare decimal.simps [simp del]

definition uid_name :: "nat \<Rightarrow> string" where
  "uid_name i = ''_'' @ (if 1 < i then decimal i else [])"

definition in_use :: "program \<Rightarrow> string \<Rightarrow> bool" where
  "in_use p u = (u \<in> set (bindings p) \<or> u \<in> set (references p))"

text \<open>The loop ends: the candidates are pairwise distinct and only finitely many names are in use.\<close>

lemma digit_char_inj: "a < 10 \<Longrightarrow> b < 10 \<Longrightarrow> digit_char a = digit_char b \<Longrightarrow> a = b"
proof -
  assume a: "a < 10" and b: "b < 10" and e: "digit_char a = digit_char b"
  have d: "distinct ''0123456789''" by simp
  have "length ''0123456789'' = 10" by simp
  with a b e d show ?thesis
    unfolding digit_char_def by (metis nth_eq_iff_index_eq)
qed

lemma decimal_nonempty: "decimal n \<noteq> []"
  by (subst decimal.simps) simp

lemma decimal_last: "last (decimal n) = digit_char (n mod 10)"
  by (subst decimal.simps) simp

lemma decimal_butlast: "10 \<le> n \<Longrightarrow> butlast (decimal n) = decimal (n div 10)"
  by (subst decimal.simps) simp

lemma decimal_small: "n < 10 \<Longrightarrow> decimal n = [digit_char n]"
  by (subst decimal.simps) simp

lemma decimal_length_big: "10 \<le> n \<Longrightarrow> 2 \<le> length (decimal n)"
proof -
  assume "10 \<le> n"
  then have "decimal n = decimal (n div 10) @ [digit_char (n mod 10)]"
    by (subst decimal.simps) simp
  moreover have "1 \<le> length (decimal (n div 10))"
    using decimal_nonempty [of "n div 10"] by (cases "decimal (n div 10)") auto
  ultimately show ?thesis by simp
qed

lemma decimal_inj: "decimal m = decimal n \<Longrightarrow> m = n"
proof (induction m arbitrary: n rule: decimal.induct)
  case (1 m)
  show ?case
  proof (cases "m < 10")
    case True
    note m = this
    show ?thesis
    proof (cases "n < 10")
      case True
      with m "1.prems" show ?thesis
        by (simp add: decimal_small digit_char_inj)
    next
      case False
      then have "2 \<le> length (decimal n)" by (simp add: decimal_length_big)
      moreover from m "1.prems" have "length (decimal n) = 1"
        by (metis decimal_small length_Cons list.size(3) One_nat_def)
      ultimately show ?thesis by simp
    qed
  next
    case False
    note m = this
    show ?thesis
    proof (cases "n < 10")
      case True
      from m have "2 \<le> length (decimal m)" by (simp add: decimal_length_big)
      moreover from True "1.prems" have "length (decimal m) = 1"
        by (metis decimal_small length_Cons list.size(3) One_nat_def)
      ultimately show ?thesis by simp
    next
      case False
      from "1.prems" have "butlast (decimal m) = butlast (decimal n)" by simp
      with m False have "decimal (m div 10) = decimal (n div 10)"
        by (simp add: decimal_butlast)
      with "1.IH" m have d: "m div 10 = n div 10" by simp
      from "1.prems" have "last (decimal m) = last (decimal n)" by simp
      then have "digit_char (m mod 10) = digit_char (n mod 10)"
        by (simp add: decimal_last)
      then have r: "m mod 10 = n mod 10"
        by (rule digit_char_inj [rotated 2]) simp_all
      from d r show ?thesis by (metis div_mult_mod_eq)
    qed
  qed
qed

lemma uid_name_inj: "0 < i \<Longrightarrow> 0 < j \<Longrightarrow> uid_name i = uid_name j \<Longrightarrow> i = j"
  using decimal_nonempty [of i] decimal_nonempty [of j]
  by (auto simp: uid_name_def dest: decimal_inj split: if_splits)

lemma finite_uid_indices: "finite {j. in_use p (uid_name j)}"
proof -
  let ?S = "set (bindings p) \<union> set (references p)"
  have "inj_on uid_name {0<..}"
    by (rule inj_onI) (auto dest: uid_name_inj)
  then have "finite (uid_name -` ?S \<inter> {0<..})"
    by (intro finite_vimage_IntI) auto
  moreover have "{j. in_use p (uid_name j)} \<subseteq> insert 0 (uid_name -` ?S \<inter> {0<..})"
    by (auto simp: in_use_def)
  ultimately show ?thesis by (meson finite_insert finite_subset)
qed

function generateUid_loop :: "program \<Rightarrow> nat \<Rightarrow> string" where
  "generateUid_loop p i =
     (if in_use p (uid_name i) then generateUid_loop p (Suc i) else uid_name i)"
  by pat_completeness auto
termination
proof (relation "measure (\<lambda>(p, i). card {j. i \<le> j \<and> in_use p (uid_name j)})")
  show "wf (measure (\<lambda>(p, i). card {j. i \<le> j \<and> in_use p (uid_name j)}))" by simp
next
  fix p i
  assume u: "in_use p (uid_name i)"
  have fin: "finite {j. i \<le> j \<and> in_use p (uid_name j)}"
    by (rule finite_subset [OF _ finite_uid_indices [of p]]) auto
  have "{j. Suc i \<le> j \<and> in_use p (uid_name j)} \<subset> {j. i \<le> j \<and> in_use p (uid_name j)}"
  proof
    show "{j. Suc i \<le> j \<and> in_use p (uid_name j)} \<subseteq> {j. i \<le> j \<and> in_use p (uid_name j)}"
      by auto
    have "i \<in> {j. i \<le> j \<and> in_use p (uid_name j)}" using u by simp
    moreover have "i \<notin> {j. Suc i \<le> j \<and> in_use p (uid_name j)}" by simp
    ultimately show "{j. Suc i \<le> j \<and> in_use p (uid_name j)} \<noteq> {j. i \<le> j \<and> in_use p (uid_name j)}"
      by metis
  qed
  then have "card {j. Suc i \<le> j \<and> in_use p (uid_name j)} < card {j. i \<le> j \<and> in_use p (uid_name j)}"
    using fin by (rule psubset_card_mono [rotated])
  then show "((p, Suc i), (p, i)) \<in> measure (\<lambda>(p, i). card {j. i \<le> j \<and> in_use p (uid_name j)})"
    by simp
qed

declare generateUid_loop.simps [simp del]

lemma generateUid_loop_fresh: "\<not> in_use p (generateUid_loop p i)"
  by (induction p i rule: generateUid_loop.induct) (subst generateUid_loop.simps, simp)


definition generateUidIdentifier :: "program \<Rightarrow> string \<times> program" where
  "generateUidIdentifier p =
     (let uid = generateUid_loop p 1 in (uid, p\<lparr>references := uid # references p\<rparr>))"

section \<open>The AST builders (utils/ast-builders.tsx)\<close>

subsection \<open>\<open>hoistSheet\<close>\<close>

text \<open>
  \<open>state.sheets\<close> is the object literal \<open>{}\<close>, so \<open>state.sheets[sheet]\<close> reads an own
  property or, failing that, a member inherited from \<open>Object.prototype\<close>; every such member
  is truthy. \<open>sheets\<close> holds the own properties.
\<close>

definition Object_prototype_keys :: "string list" where
  "Object_prototype_keys =
     [''constructor'', ''__defineGetter__'', ''__defineSetter__'', ''hasOwnProperty'',
      ''__lookupGetter__'', ''__lookupSetter__'', ''isPrototypeOf'', ''propertyIsEnumerable'',
      ''toString'', ''valueOf'', ''__proto__'', ''toLocaleString'']"

datatype sheet_value = SheetIdentifier string | InheritedMember string

definition sheets_lookup :: "(string \<rightharpoonup> string) \<Rightarrow> string \<Rightarrow> sheet_value option" where
  "sheets_lookup m sheet =
     (case m sheet of
        Some i \<Rightarrow> Some (SheetIdentifier i)
      | None \<Rightarrow> if sheet \<in> set Object_prototype_keys then Some (InheritedMember sheet) else None)"

text \<open>
  \<open>parent.filter((path) => !path.isImportDeclaration())[0]\<close> followed by
  \<open>path.insertBefore(...)\<close>; with no such statement \<open>path\<close> is \<open>undefined\<close> and the call
  throws a \<open>TypeError\<close>.
\<close>

fun isImportDeclaration :: "statement \<Rightarrow> bool" where
  "isImportDeclaration (ImportDeclaration specs src) = True"
| "isImportDeclaration _ = False"

fun insertBefore_first_non_import :: "statement \<Rightarrow> statement list \<Rightarrow> statement list option" where
  "insertBefore_first_non_import d [] = None"
| "insertBefore_first_non_import d (s # ss) =
     (if isImportDeclaration s then map_option (Cons s) (insertBefore_first_non_import d ss)
      else Some (d # s # ss))"

definition hoistSheet :: "string \<Rightarrow> metadata \<Rightarrow> error + (sheet_value \<times> metadata)" where
  "hoistSheet sheet meta =
     (case sheets_lookup (sheets (state meta)) sheet of
        Some v \<Rightarrow> Inr (v, meta)
      | None \<Rightarrow>
          (let (sheetIdentifier, p) = generateUidIdentifier (program meta)
           in case insertBefore_first_non_import
                     (VariableDeclaration ''const'' sheetIdentifier (StringLiteral sheet)) (body p) of
                None \<Rightarrow> Inl (TypeError ''path is undefined'')
              | Some body' \<Rightarrow>
                  Inr (SheetIdentifier sheetIdentifier,
                       meta\<lparr>program := p\<lparr>body := body'\<rparr>,
                            state := (state meta)\<lparr>sheets := (sheets (state meta))(sheet \<mapsto> sheetIdentifier)\<rparr>\<rparr>)))"

text \<open>\<open>sheets.map((sheet) => hoistSheet(sheet, meta))\<close>, as both templates call it.\<close>

fun hoistSheets :: "string list \<Rightarrow> metadata \<Rightarrow> error + (sheet_value list \<times> metadata)" where
  "hoistSheets [] meta = Inr ([], meta)"
| "hoistSheets (sheet # rest) meta =
     (case hoistSheet sheet meta of
        Inl e \<Rightarrow> Inl e
      | Inr (v, meta') \<Rightarrow>
          (case hoistSheets rest meta' of
             Inl e \<Rightarrow> Inl e
           | Inr (vs, meta'') \<Rightarrow> Inr (v # vs, meta'')))"

subsection \<open>CSS variables and the inline style object\<close>

record variable =
  name :: string
  expression :: expr

record CSSOutput =
  css :: string
  variables :: "variable list"

datatype tag_type = InBuiltComponent | UserDefinedComponent

datatype Tag = Tag string tag_type

record StyledTemplateOpts =
  classNames :: "string list"
  tag :: Tag
  opts_variables :: "variable list"
  opts_sheets :: "string list"

text \<open>
  Modelled from the spec: \<open>unique\<close> of \<open>@compiled/utils\<close>, which is not among the sources.
  The spec: duplicates by \<open>name\<close> are collapsed preserving first occurrence.
\<close>

fun unique_from :: "'k list \<Rightarrow> 'a list \<Rightarrow> ('a \<Rightarrow> 'k) \<Rightarrow> 'a list" where
  "unique_from seen [] getter = []"
| "unique_from seen (item # items) getter =
     (if getter item \<in> set seen then unique_from seen items getter
      else item # unique_from (getter item # seen) items getter)"

definition unique :: "'a list \<Rightarrow> ('a \<Rightarrow> 'k) \<Rightarrow> 'a list" where
  "unique arr getter = unique_from [] arr getter"

text \<open>
  \<open>buildCssVariablesProp\<close>. The \<open>transform\<close> callback of the styled API records the props
  it meets, so it is a state transformer; the default callback is the identity.
\<close>

fun map_state :: "('a \<Rightarrow> 's \<Rightarrow> 'b \<times> 's) \<Rightarrow> 'a list \<Rightarrow> 's \<Rightarrow> 'b list \<times> 's" where
  "map_state f [] s = ([], s)"
| "map_state f (x # xs) s =
     (let (y, s') = f x s; (ys, s'') = map_state f xs s' in (y # ys, s''))"

definition buildCssVariablesProp ::
  "variable list \<Rightarrow> (expr \<Rightarrow> 's \<Rightarrow> expr \<times> 's) \<Rightarrow> 's \<Rightarrow> property list \<times> 's" where
  "buildCssVariablesProp vars transform s =
     map_state
       (\<lambda>variable s. let (e, s') = transform (expression variable) s
                     in (ObjectProperty (StringLiteral (name variable)) e, s'))
       (unique vars name) s"

definition default_transform :: "expr \<Rightarrow> unit \<Rightarrow> expr \<times> unit" where
  "default_transform e u = (e, u)"

definition styledStyleProp ::
  "variable list \<Rightarrow> (expr \<Rightarrow> 's \<Rightarrow> expr \<times> 's) \<Rightarrow> 's \<Rightarrow> expr \<times> 's" where
  "styledStyleProp vars transform s =
     (let (ps, s') = buildCssVariablesProp vars transform s
      in (ObjectExpression ([SpreadElement (Identifier ''style'')] @ ps), s'))"

fun buildComponentTag :: "Tag \<Rightarrow> string" where
  "buildComponentTag (Tag n ty) =
     (if ty = InBuiltComponent then [CHR 0x22] @ n @ [CHR 0x22] else n)"

subsection \<open>The styled template\<close>

text \<open>
  \<open>nestedArrowFunctionExpressionVisitor\<close>: \<open>visit\<close> is the traversal entering a node, so a
  member expression \<open>props.x\<close> is replaced by \<open>x\<close> and \<open>x\<close> is pushed to
  \<open>propsToDestructure\<close> unless \<open>x\<close> is a valid HTML attribute; the replacement, an
  identifier, has nothing left to visit. The body of an object method is opaque.
  \<open>traverse(node, visitor)\<close> visits what is below \<open>node\<close>, not \<open>node\<close> itself.
\<close>

fun sequence_state :: "('s \<Rightarrow> 'a \<times> 's) list \<Rightarrow> 's \<Rightarrow> 'a list \<times> 's" where
  "sequence_state [] s = ([], s)"
| "sequence_state (f # fs) s =
     (let (y, s') = f s; (ys, s'') = sequence_state fs s' in (y # ys, s''))"

primrec visit :: "(string \<Rightarrow> bool) \<Rightarrow> expr \<Rightarrow> string list \<Rightarrow> expr \<times> string list"
  and visit_property :: "(string \<Rightarrow> bool) \<Rightarrow> property \<Rightarrow> string list \<Rightarrow> property \<times> string list" where
  "visit isPropValid (MemberExpression obj propertyAccessName) =
     (\<lambda>propsToDestructure.
       if obj = Identifier ''props'' then
        (if isPropValid propertyAccessName
         then (MemberExpression obj propertyAccessName, propsToDestructure)
         else (Identifier propertyAccessName,
               if propertyAccessName \<in> set propsToDestructure then propsToDestructure
               else propsToDestructure @ [propertyAccessName]))
       else (let (obj', acc') = visit isPropValid obj propsToDestructure
            in (MemberExpression obj' propertyAccessName, acc')))"
| "visit isPropValid (ArrowFunctionExpression params b) =
     (\<lambda>acc. let (b', acc') = visit isPropValid b acc in (ArrowFunctionExpression params b', acc'))"
| "visit isPropValid (BinaryExpression operator l r) =
     (\<lambda>acc. let (l', acc') = visit isPropValid l acc; (r', acc'') = visit isPropValid r acc'
      in (BinaryExpression operator l' r', acc''))"
| "visit isPropValid (CallExpression callee args) =
     (\<lambda>acc. let (callee', acc') = visit isPropValid callee acc;
          (args', acc'') = sequence_state (map (visit isPropValid) args) acc'
      in (CallExpression callee' args', acc''))"
| "visit isPropValid (ArrayExpression elements) =
     (\<lambda>acc. let (elements', acc') = sequence_state (map (visit isPropValid) elements) acc
      in (ArrayExpression elements', acc'))"
| "visit isPropValid (ObjectExpression properties) =
     (\<lambda>acc. let (properties', acc') = sequence_state (map (visit_property isPropValid) properties) acc
      in (ObjectExpression properties', acc'))"
| "visit isPropValid (Identifier n) = (\<lambda>acc. (Identifier n, acc))"
| "visit isPropValid (StringLiteral v) = (\<lambda>acc. (StringLiteral v, acc))"
| "visit isPropValid (NumericLiteral v) = (\<lambda>acc. (NumericLiteral v, acc))"
| "visit isPropValid (JSXNode v) = (\<lambda>acc. (JSXNode v, acc))"
| "visit_property isPropValid (ObjectProperty k v) =
     (\<lambda>acc. let (k', acc') = visit isPropValid k acc; (v', acc'') = visit isPropValid v acc'
      in (ObjectProperty k' v', acc''))"
| "visit_property isPropValid (SpreadElement e) =
     (\<lambda>acc. let (e', acc') = visit isPropValid e acc in (SpreadElement e', acc'))"
| "visit_property isPropValid (ObjectMethod kind k) = (\<lambda>acc. (ObjectMethod kind k, acc))"

definition traverse :: "(string \<Rightarrow> bool) \<Rightarrow> expr \<Rightarrow> string list \<Rightarrow> expr \<times> string list" where
  "traverse isPropValid node acc =
     (case node of
        MemberExpression obj p \<Rightarrow>
          (let (obj', acc') = visit isPropValid obj acc in (MemberExpression obj' p, acc'))
      | _ \<Rightarrow> visit isPropValid node acc)"

text \<open>
  Modelled from the spec: \<open>pickFunctionBody\<close> of \<open>utils/ast\<close>, which is not among the
  sources. The spec calls the result the function-stripped access: the body of the arrow
  function.
\<close>

definition pickFunctionBody :: "expr \<Rightarrow> expr" where
  "pickFunctionBody node = (case node of ArrowFunctionExpression params b \<Rightarrow> b | _ \<Rightarrow> node)"

text \<open>\<open>traverseStyledArrowFunctionExpression\<close>: traverse, then return the body.\<close>

definition traverseStyledArrowFunctionExpression ::
  "(string \<Rightarrow> bool) \<Rightarrow> expr \<Rightarrow> string list \<Rightarrow> expr \<times> string list" where
  "traverseStyledArrowFunctionExpression isPropValid node acc =
     (let (node', acc') = traverse isPropValid node acc in (pickFunctionBody node', acc'))"

text \<open>
  \<open>traverseStyledBinaryExpression\<close>: the traversal enters nodes in source order and reacts
  to an arrow function by visiting it with the nested visitor, replacing it with its body
  and calling \<open>path.stop()\<close>, which ends the traversal: the flag \<open>stopped\<close>.
\<close>

primrec visit_arrow ::
    "(string \<Rightarrow> bool) \<Rightarrow> expr \<Rightarrow> string list \<times> bool \<Rightarrow> expr \<times> string list \<times> bool"
  and visit_arrow_property ::
    "(string \<Rightarrow> bool) \<Rightarrow> property \<Rightarrow> string list \<times> bool \<Rightarrow> property \<times> string list \<times> bool" where
  "visit_arrow isPropValid (ArrowFunctionExpression params b) =
     (\<lambda>(acc, stopped).
        if stopped then (ArrowFunctionExpression params b, acc, stopped)
        else (let (node', acc') = traverse isPropValid (ArrowFunctionExpression params b) acc
              in (pickFunctionBody node', acc', True)))"
| "visit_arrow isPropValid (MemberExpression obj p) =
     (\<lambda>s. let (obj', s') = visit_arrow isPropValid obj s in (MemberExpression obj' p, s'))"
| "visit_arrow isPropValid (BinaryExpression operator l r) =
     (\<lambda>s. let (l', s') = visit_arrow isPropValid l s; (r', s'') = visit_arrow isPropValid r s'
      in (BinaryExpression operator l' r', s''))"
| "visit_arrow isPropValid (CallExpression callee args) =
     (\<lambda>s. let (callee', s') = visit_arrow isPropValid callee s;
            (args', s'') = sequence_state (map (visit_arrow isPropValid) args) s'
      in (CallExpression callee' args', s''))"
| "visit_arrow isPropValid (ArrayExpression elements) =
     (\<lambda>s. let (elements', s') = sequence_state (map (visit_arrow isPropValid) elements) s
      in (ArrayExpression elements', s'))"
| "visit_arrow isPropValid (ObjectExpression properties) =
     (\<lambda>s. let (properties', s') =
              sequence_state (map (visit_arrow_property isPropValid) properties) s
      in (ObjectExpression properties', s'))"
| "visit_arrow isPropValid (Identifier n) = (\<lambda>s. (Identifier n, s))"
| "visit_arrow isPropValid (StringLiteral v) = (\<lambda>s. (StringLiteral v, s))"
| "visit_arrow isPropValid (NumericLiteral v) = (\<lambda>s. (NumericLiteral v, s))"
| "visit_arrow isPropValid (JSXNode v) = (\<lambda>s. (JSXNode v, s))"
| "visit_arrow_property isPropValid (ObjectProperty k v) =
     (\<lambda>s. let (k', s') = visit_arrow isPropValid k s; (v', s'') = visit_arrow isPropValid v s'
      in (ObjectProperty k' v', s''))"
| "visit_arrow_property isPropValid (SpreadElement e) =
     (\<lambda>s. let (e', s') = visit_arrow isPropValid e s in (SpreadElement e', s'))"
| "visit_arrow_property isPropValid (ObjectMethod kind k) = (\<lambda>s. (ObjectMethod kind k, s))"

definition traverseStyledBinaryExpression ::
  "(string \<Rightarrow> bool) \<Rightarrow> expr \<Rightarrow> string list \<Rightarrow> expr \<times> string list" where
  "traverseStyledBinaryExpression isPropValid node acc =
     (let (node', acc', stopped) = visit_arrow isPropValid node (acc, False) in (node', acc'))"

text \<open>
  The callback \<open>styledTemplate\<close> passes to \<open>styledStyleProp\<close>: an arrow function and a
  binary expression are traversed, any other node is returned as it is.
\<close>

definition styled_transform :: "(string \<Rightarrow> bool) \<Rightarrow> expr \<Rightarrow> string list \<Rightarrow> expr \<times> string list" where
  "styled_transform isPropValid node propsToDestructure =
     (case node of
        ArrowFunctionExpression params b \<Rightarrow>
          traverseStyledArrowFunctionExpression isPropValid node propsToDestructure
      | BinaryExpression operator l r \<Rightarrow>
          traverseStyledBinaryExpression isPropValid node propsToDestructure
      | _ \<Rightarrow> (node, propsToDestructure))"

text \<open>
  \<open>styledTemplate\<close>. The generated component is kept as the holes of the template: the
  default of \<open>as\<close>, the names destructured after it, the rest element, the \<open>nonce\<close> attribute,
  the array of hoisted sheets, the \<open>style\<close> expression and the text of the \<open>className\<close>
  expression.

  The names of \<open>propsToDestructure\<close> are spliced as text into the parameters
  \<open>({ as: C = ..., style, <names> ...props }, ref)\<close>, and \<open>template()\<close> parses that text as a
  module when it is applied to its replacements, after the sheets are hoisted. The parser
  throws when a spliced name cannot be bound there: a keyword or a word reserved in a
  module (\<open>reserved_words\<close>), or a name the parameters bind already (\<open>C\<close>, \<open>style\<close>,
  \<open>props\<close>, \<open>ref\<close>). The other pieces of text (tag, class names, nonce) are taken to
  parse.
\<close>

definition reserved_words :: "string list" where
  "reserved_words =
     [''break'', ''case'', ''catch'', ''continue'', ''debugger'', ''default'', ''do'', ''else'',
      ''finally'', ''for'', ''function'', ''if'', ''return'', ''switch'', ''throw'', ''try'',
      ''var'', ''const'', ''while'', ''with'', ''new'', ''this'', ''super'', ''class'',
      ''extends'', ''export'', ''import'', ''null'', ''true'', ''false'', ''in'',
      ''instanceof'', ''typeof'', ''void'', ''delete'',
      ''implements'', ''interface'', ''let'', ''package'', ''private'', ''protected'',
      ''public'', ''static'', ''yield'', ''eval'', ''arguments'', ''await'', ''enum'']"

definition template_parses :: "string list \<Rightarrow> bool" where
  "template_parses propsToDestructure =
     list_all (\<lambda>p. p \<notin> set reserved_words \<and> p \<notin> set [''C'', ''style'', ''props'', ''ref''])
       propsToDestructure"

definition nonceAttribute_of :: "state \<Rightarrow> string" where
  "nonceAttribute_of st =
     (case nonce st of
        None \<Rightarrow> []
      | Some n \<Rightarrow> if n = [] then [] else ''nonce={'' @ n @ ''}'')"

fun join :: "string list \<Rightarrow> string \<Rightarrow> string" where
  "join [] sep = []"
| "join [x] sep = x"
| "join (x # y # xs) sep = x @ sep @ join (y # xs) sep"

record styled_component =
  as_default :: string
  destructured :: "string list"
  rest_element :: string
  sc_nonceAttribute :: string
  sc_cssNode :: "sheet_value list"
  sc_style :: expr
  sc_className :: string

definition styledTemplate ::
  "(string \<Rightarrow> bool) \<Rightarrow> StyledTemplateOpts \<Rightarrow> metadata \<Rightarrow> error + (styled_component \<times> metadata)" where
  "styledTemplate isPropValid opts meta =
     (let (styleProp, propsToDestructure) =
            (if opts_variables opts \<noteq> []
             then styledStyleProp (opts_variables opts) (styled_transform isPropValid) []
             else (Identifier ''style'', []))
      in case hoistSheets (opts_sheets opts) meta of
           Inl e \<Rightarrow> Inl e
         | Inr (cssNode, meta') \<Rightarrow>
             if template_parses propsToDestructure
             then Inr (\<lparr>as_default = buildComponentTag (tag opts),
                        destructured = ''style'' # propsToDestructure,
                        rest_element = ''props'',
                        sc_nonceAttribute = nonceAttribute_of (state meta),
                        sc_cssNode = cssNode,
                        sc_style = styleProp,
                        sc_className =
                          ''ax(['' @
                          join (map (\<lambda>c. [CHR 0x22] @ c @ [CHR 0x22]) (classNames opts)) '','' @
                          '', props.className])''\<rparr>,
                       meta')
             else Inl SyntaxError)"

definition buildStyledComponent ::
  "(string \<Rightarrow> string list \<times> string list) \<Rightarrow> (string \<Rightarrow> bool) \<Rightarrow> Tag \<Rightarrow> CSSOutput \<Rightarrow> metadata \<Rightarrow>
   error + (styled_component \<times> metadata)" where
  "buildStyledComponent transformCss isPropValid t cssOutput meta =
     (let (css_classNames, css_sheets) = transformCss (css cssOutput)
      in styledTemplate isPropValid
           \<lparr>classNames = css_classNames, tag = t, opts_variables = variables cssOutput,
            opts_sheets = css_sheets\<rparr> meta)"

subsection \<open>The compiled template and the css prop\<close>

record compiled_component =
  cc_nonceAttribute :: string
  cc_cssNode :: "sheet_value list"
  jsxNode :: jsx_element

definition compiledTemplate ::
  "jsx_element \<Rightarrow> string list \<Rightarrow> metadata \<Rightarrow> error + (compiled_component \<times> metadata)" where
  "compiledTemplate node sheet_list meta =
     (case hoistSheets sheet_list meta of
        Inl e \<Rightarrow> Inl e
      | Inr (cssNode, meta') \<Rightarrow>
          Inr (\<lparr>cc_nonceAttribute = nonceAttribute_of (state meta), cc_cssNode = cssNode,
                jsxNode = node\<rparr>, meta'))"

definition getPropValue :: "attribute_value \<Rightarrow> error + expr" where
  "getPropValue node =
     (let v = (case node of JSXExpressionContainer e \<Rightarrow> e | Literal e \<Rightarrow> Expression e)
      in case v of
           JSXEmptyExpression l \<Rightarrow> Inl (Error ''Empty expression not supported.'')
         | Expression e \<Rightarrow> Inr e)"

text \<open>
  \<open>buildCompiledComponent\<close> in its three steps: the class name (\<open>merge_className\<close>), the
  inline style (\<open>merge_style\<close>) and the template. \<open>splice_insert\<close> is
  \<open>array.splice(i, 0, x)\<close>, which inserts at the end when \<open>i\<close> is past it;
  \<open>splice_remove\<close> is \<open>array.splice(i, 1)\<close>. \<open>forEach_splice\<close> is the \<open>forEach\<close> over the
  properties of the preexisting style object.
\<close>

definition isAttributeNamed :: "string \<Rightarrow> attribute \<Rightarrow> bool" where
  "isAttributeNamed n prop = (case prop of JSXAttribute an v \<Rightarrow> an = n | JSXSpreadAttribute e \<Rightarrow> False)"

fun find_index_from :: "('a \<Rightarrow> bool) \<Rightarrow> 'a list \<Rightarrow> nat \<Rightarrow> nat option" where
  "find_index_from P [] i = None"
| "find_index_from P (x # xs) i = (if P x then Some i else find_index_from P xs (Suc i))"

definition splice_insert :: "nat \<Rightarrow> 'a \<Rightarrow> 'a list \<Rightarrow> 'a list" where
  "splice_insert i x xs = take i xs @ [x] @ drop i xs"

definition splice_remove :: "nat \<Rightarrow> 'a list \<Rightarrow> 'a list" where
  "splice_remove i xs = take i xs @ drop (Suc i) xs"

fun isObjectMethod :: "property \<Rightarrow> bool" where
  "isObjectMethod (ObjectMethod kind k) = True"
| "isObjectMethod (ObjectProperty k v) = False"
| "isObjectMethod (SpreadElement e) = False"

fun forEach_splice :: "property list \<Rightarrow> nat \<Rightarrow> property list \<Rightarrow> property list" where
  "forEach_splice [] i dynamicStyleProperties = dynamicStyleProperties"
| "forEach_splice (prop # props) i dynamicStyleProperties =
     (if isObjectMethod prop then forEach_splice props (Suc i) dynamicStyleProperties
      else forEach_splice props (Suc i) (splice_insert i prop dynamicStyleProperties))"

definition ax_call :: "expr list \<Rightarrow> attribute_value" where
  "ax_call vals =
     JSXExpressionContainer (Expression (CallExpression (Identifier ''ax'') [ArrayExpression vals]))"

definition merge_className :: "string list \<Rightarrow> attribute list \<Rightarrow> error + attribute list" where
  "merge_className cns attrs =
     (case find_index_from (isAttributeNamed ''className'') attrs 0 of
        None \<Rightarrow> Inr (attrs @ [JSXAttribute ''className'' (Some (ax_call (map StringLiteral cns)))])
      | Some i \<Rightarrow>
          (case attrs ! i of
             JSXAttribute n (Some v) \<Rightarrow>
               (case getPropValue v of
                  Inl e \<Rightarrow> Inl e
                | Inr classNameExpression \<Rightarrow>
                    Inr (attrs[i := JSXAttribute n
                           (Some (ax_call (map StringLiteral cns @ [classNameExpression])))]))
           | _ \<Rightarrow> Inr (attrs @ [JSXAttribute ''className'' (Some (ax_call (map StringLiteral cns)))])))"

definition merge_style :: "variable list \<Rightarrow> attribute list \<Rightarrow> attribute list" where
  "merge_style vars attrs =
     (if vars = [] then attrs
      else
        (let dynamicStyleProperties = fst (buildCssVariablesProp vars default_transform ());
             (attrs', merged) =
               (case find_index_from (isAttributeNamed ''style'') attrs 0 of
                  None \<Rightarrow> (attrs, dynamicStyleProperties)
                | Some stylePropIndex \<Rightarrow>
                    (splice_remove stylePropIndex attrs,
                     (case attrs ! stylePropIndex of
                        JSXAttribute n (Some (JSXExpressionContainer (Expression e))) \<Rightarrow>
                          (case e of
                             ObjectExpression properties \<Rightarrow>
                               forEach_splice properties 0 dynamicStyleProperties
                           | _ \<Rightarrow> splice_insert 0 (SpreadElement e) dynamicStyleProperties)
                      | _ \<Rightarrow> dynamicStyleProperties)))
         in attrs' @ [JSXAttribute ''style''
                        (Some (JSXExpressionContainer (Expression (ObjectExpression merged))))]))"

definition buildCompiledComponent ::
  "(string \<Rightarrow> string list \<times> string list) \<Rightarrow> jsx_element \<Rightarrow> CSSOutput \<Rightarrow> metadata \<Rightarrow>
   error + (compiled_component \<times> metadata)" where
  "buildCompiledComponent transformCss node cssOutput meta =
     (let (css_classNames, css_sheets) = transformCss (css cssOutput)
      in case merge_className css_classNames (attributes node) of
           Inl e \<Rightarrow> Inl e
         | Inr attrs \<Rightarrow>
             compiledTemplate (node\<lparr>attributes := merge_style (variables cssOutput) attrs\<rparr>)
               css_sheets meta)"

section \<open>The entry visitor (index.tsx)\<close>

text \<open>
  \<open>importSpecifier(name, localName?)\<close> calls the builder \<open>t.importSpecifier\<close>, whose
  arguments are the local binding and then the imported name, with \<open>name\<close> and then
  \<open>localName || name\<close>: \<open>name\<close> is the local binding and \<open>localName || name\<close> the imported
  name.
\<close>

definition importSpecifier :: "string \<Rightarrow> string option \<Rightarrow> specifier" where
  "importSpecifier n localName =
     ImportSpecifier
       (case localName of None \<Rightarrow> n | Some l \<Rightarrow> if l = [] then n else l) n"

text \<open>
  The callback of \<open>specifiers.filter\<close>. It writes \<open>state.compiledImports.styled\<close> while it
  filters, so the filter threads \<open>compiledImports\<close> through the list.
\<close>

fun filter_specifiers ::
  "specifier list \<Rightarrow> compiled_imports option \<Rightarrow> specifier list \<times> compiled_imports option" where
  "filter_specifiers [] ci = ([], ci)"
| "filter_specifiers (s # ss) ci =
     (case ci of
        None \<Rightarrow> (let (r, ci') = filter_specifiers ss ci in (s # r, ci'))
      | Some c \<Rightarrow>
          (case s of
             ImportSpecifier imp loc \<Rightarrow>
               if imp = ''styled'' then filter_specifiers ss (Some (c\<lparr>styled := Some loc\<rparr>))
               else (let (r, ci') = filter_specifiers ss ci in (s # r, ci'))
           | _ \<Rightarrow> (let (r, ci') = filter_specifiers ss ci in (s # r, ci'))))"

definition ImportDeclaration_visitor :: "statement \<Rightarrow> state \<Rightarrow> statement \<times> state" where
  "ImportDeclaration_visitor stmt st =
     (case stmt of
        ImportDeclaration specs src \<Rightarrow>
          if src \<noteq> ''@compiled/core'' then (stmt, st)
          else
            (let (kept, ci) = filter_specifiers specs (Some \<lparr>styled = None\<rparr>)
             in (ImportDeclaration
                   (kept @ [importSpecifier ''ax'' None, importSpecifier ''CC'' None,
                            importSpecifier ''CS'' None]) src,
                 st\<lparr>compiledImports := ci\<rparr>))
      | _ \<Rightarrow> (stmt, st))"

text \<open>\<open>template.ast(`import * as React from 'react'`)\<close>.\<close>

definition react_import :: statement where
  "react_import = ImportDeclaration [ImportNamespaceSpecifier ''React''] ''react''"

text \<open>\<open>Program.exit\<close>: \<open>state.compiledImports\<close> is an object when set, hence truthy.\<close>

definition Program_exit :: "state \<Rightarrow> program \<Rightarrow> program" where
  "Program_exit st p =
     (if compiledImports st \<noteq> None \<and> ''React'' \<notin> set (bindings p)
      then p\<lparr>body := react_import # body p\<rparr>
      else p)"

text \<open>
  The three visitors that dispatch. \<open>visitStyledPath\<close> and \<open>visitCssPropPath\<close> (\<open>./styled\<close>,
  \<open>./css-prop\<close>) are not among the sources: they are parameters, which take the visited
  node, the index of the statement that holds it and the metadata, and may throw.
  \<open>state.compiledImports?.styled\<close> is truthy when it is a non-empty string.
\<close>

type_synonym site_visitor = "site \<Rightarrow> nat \<Rightarrow> metadata \<Rightarrow> error + metadata"

definition TaggedTemplateExpression_visitor :: "site_visitor \<Rightarrow> site \<Rightarrow> nat \<Rightarrow> metadata \<Rightarrow> error + metadata" where
  "TaggedTemplateExpression_visitor visitStyledPath path i meta =
     (case compiledImports (state meta) of
        None \<Rightarrow> Inr meta
      | Some ci \<Rightarrow>
          (case styled ci of
             None \<Rightarrow> Inr meta
           | Some s \<Rightarrow> if s = [] then Inr meta else visitStyledPath path i meta))"

definition CallExpression_visitor :: "site_visitor \<Rightarrow> site \<Rightarrow> nat \<Rightarrow> metadata \<Rightarrow> error + metadata" where
  "CallExpression_visitor visitStyledPath path i meta =
     (if compiledImports (state meta) = None then Inr meta else visitStyledPath path i meta)"

definition JSXOpeningElement_visitor :: "site_visitor \<Rightarrow> site \<Rightarrow> nat \<Rightarrow> metadata \<Rightarrow> error + metadata" where
  "JSXOpeningElement_visitor visitCssPropPath path i meta =
     (if compiledImports (state meta) = None then Inr meta else visitCssPropPath path i meta)"

fun visit_site :: "site_visitor \<Rightarrow> site_visitor \<Rightarrow> site \<Rightarrow> nat \<Rightarrow> metadata \<Rightarrow> error + metadata" where
  "visit_site visitStyledPath visitCssPropPath (TaggedTemplateSite k) i meta =
     TaggedTemplateExpression_visitor visitStyledPath (TaggedTemplateSite k) i meta"
| "visit_site visitStyledPath visitCssPropPath (CallSite k) i meta =
     CallExpression_visitor visitStyledPath (CallSite k) i meta"
| "visit_site visitStyledPath visitCssPropPath (JSXOpeningSite k) i meta =
     JSXOpeningElement_visitor visitCssPropPath (JSXOpeningSite k) i meta"

text \<open>
  The traversal of one module: the statements of the body in source order and, inside a
  statement, its nodes in source order. A visitor that inserts statements before the one
  being visited (the hoister does) moves it down by as many places. \<open>n\<close> counts the
  statements still to visit. \<open>plugin\<close> is one run of the pass on a program: \<open>pre\<close>, the
  traversal, \<open>Program.exit\<close>.
\<close>

fun visit_sites ::
  "site_visitor \<Rightarrow> site_visitor \<Rightarrow> site list \<Rightarrow> nat \<Rightarrow> metadata \<Rightarrow> error + (nat \<times> metadata)" where
  "visit_sites visitStyledPath visitCssPropPath [] i meta = Inr (i, meta)"
| "visit_sites visitStyledPath visitCssPropPath (path # paths) i meta =
     (case visit_site visitStyledPath visitCssPropPath path i meta of
        Inl e \<Rightarrow> Inl e
      | Inr meta' \<Rightarrow>
          visit_sites visitStyledPath visitCssPropPath paths
            (i + (length (body (program meta')) - length (body (program meta)))) meta')"

fun traverse_statements ::
  "site_visitor \<Rightarrow> site_visitor \<Rightarrow> nat \<Rightarrow> nat \<Rightarrow> metadata \<Rightarrow> error + metadata" where
  "traverse_statements visitStyledPath visitCssPropPath 0 i meta = Inr meta"
| "traverse_statements visitStyledPath visitCssPropPath (Suc n) i meta =
     (if length (body (program meta)) \<le> i then Inr meta
      else
        (case body (program meta) ! i of
           ImportDeclaration specs src \<Rightarrow>
             (let (stmt', st') = ImportDeclaration_visitor (ImportDeclaration specs src) (state meta)
              in traverse_statements visitStyledPath visitCssPropPath n (Suc i)
                   (meta\<lparr>state := st',
                         program := (program meta)\<lparr>body := (body (program meta))[i := stmt']\<rparr>\<rparr>))
         | VariableDeclaration kind d e \<Rightarrow>
             traverse_statements visitStyledPath visitCssPropPath n (Suc i) meta
         | OtherStatement paths \<Rightarrow>
             (case visit_sites visitStyledPath visitCssPropPath paths i meta of
                Inl e \<Rightarrow> Inl e
              | Inr (i', meta') \<Rightarrow>
                  traverse_statements visitStyledPath visitCssPropPath n (Suc i') meta')))"

definition plugin :: "site_visitor \<Rightarrow> site_visitor \<Rightarrow> string option \<Rightarrow> program \<Rightarrow> error + program" where
  "plugin visitStyledPath visitCssPropPath nonce_option p =
     (case traverse_statements visitStyledPath visitCssPropPath (length (body p)) 0
             \<lparr>state = pre nonce_option, program = p\<rparr> of
        Inl e \<Rightarrow> Inl e
      | Inr meta \<Rightarrow> Inr (Program_exit (state meta) (program meta)))"

section \<open>Specification vocabulary\<close>

definition is_styled_specifier :: "specifier \<Rightarrow> bool" where
  "is_styled_specifier s = (case s of ImportSpecifier imp loc \<Rightarrow> imp = ''styled'' | _ \<Rightarrow> False)"

text \<open>The local name of the last \<open>styled\<close> named specifier of a list, if there is one.\<close>

fun styled_local :: "specifier list \<Rightarrow> string option \<Rightarrow> string option" where
  "styled_local [] acc = acc"
| "styled_local (ImportSpecifier imp loc # ss) acc =
     styled_local ss (if imp = ''styled'' then Some loc else acc)"
| "styled_local (_ # ss) acc = styled_local ss acc"

text \<open>The declaration a hoisted sheet is given, and a body with a statement that is not an import.\<close>

definition sheet_declaration :: "(string \<rightharpoonup> string) \<Rightarrow> string \<Rightarrow> statement" where
  "sheet_declaration m sheet = VariableDeclaration ''const'' (the (m sheet)) (StringLiteral sheet)"

definition has_statement :: "statement list \<Rightarrow> bool" where
  "has_statement b = (\<exists>s \<in> set b. \<not> isImportDeclaration s)"

text \<open>The invariant of the hoister: every recorded identifier is a generated uid, and
  two sheets never share one.\<close>

definition sheets_inv :: "metadata \<Rightarrow> bool" where
  "sheets_inv meta =
     (ran (sheets (state meta)) \<subseteq> set (references (program meta)) \<and>
      inj_on (sheets (state meta)) (dom (sheets (state meta))))"

text \<open>An import declaration whose source is \<open>@compiled/core\<close>.\<close>

definition imports_compiled_core :: "statement \<Rightarrow> bool" where
  "imports_compiled_core s =
     (case s of ImportDeclaration specs src \<Rightarrow> src = ''@compiled/core'' | _ \<Rightarrow> False)"

text \<open>
  The elements of a list without the later duplicates, in the order of their first
  occurrence; the key of an object member.
\<close>

definition keep_first :: "'a list \<Rightarrow> 'a list" where
  "keep_first xs = rev (remdups (rev xs))"

fun property_key :: "property \<Rightarrow> expr option" where
  "property_key (ObjectProperty k v) = Some k"
| "property_key (ObjectMethod kind k) = Some k"
| "property_key (SpreadElement e) = None"

text \<open>
  A \<open>style\<close> attribute holding an object expression, and the properties the CSS variables
  of a \<open>CSSOutput\<close> stand for: one per distinct name, in first-occurrence order, with the
  expression of the first variable of that name.
\<close>

definition style_attribute :: "property list \<Rightarrow> attribute" where
  "style_attribute ps =
     JSXAttribute ''style'' (Some (JSXExpressionContainer (Expression (ObjectExpression ps))))"

definition variable_properties :: "variable list \<Rightarrow> property list" where
  "variable_properties vars =
     map (\<lambda>n. ObjectProperty (StringLiteral n)
                (expression (the (find (\<lambda>v. name v = n) vars))))
       (keep_first (map name vars))"









text \<open>Inputs for the examples.\<close>

definition example_meta :: metadata where
  "example_meta =
     \<lparr>state = pre None,
      program = \<lparr>body = [ImportDeclaration [] ''@compiled/core'',
                         ImportDeclaration [ImportDefaultSpecifier ''React''] ''react'',
                         OtherStatement [JSXOpeningSite 0, JSXOpeningSite 1]],
                 bindings = [''React'', ''Component''], references = []\<rparr>\<rparr>"

definition example_transformCss :: "string \<Rightarrow> string list \<times> string list" where
  "example_transformCss c = ([''_syaz1q9v''], [''._syaz1q9v{color:var(--var-color)}''])"

definition example_cssOutput :: CSSOutput where
  "example_cssOutput =
     \<lparr>css = ''color:var(--var-color)'',
      variables = [\<lparr>name = ''--var-color'', expression = Identifier ''color''\<rparr>,
                   \<lparr>name = ''--var-color'', expression = Identifier ''color''\<rparr>]\<rparr>"

definition example_element :: "property list \<Rightarrow> jsx_element" where
  "example_element ps =
     \<lparr>elementName = ''div'',
      attributes = [JSXAttribute ''id'' (Some (Literal (StringLiteral ''a''))),
                    JSXAttribute ''style''
                      (Some (JSXExpressionContainer (Expression (ObjectExpression ps))))],
      children = ''hello world''\<rparr>"

definition example_isPropValid :: "string \<Rightarrow> bool" where
  "example_isPropValid prop = (prop \<in> set [''className'', ''href'', ''id'', ''title''])"

definition example_opts :: "expr \<Rightarrow> StyledTemplateOpts" where
  "example_opts e =
     \<lparr>classNames = [''_1wybgktf''], tag = Tag ''div'' InBuiltComponent,
      opts_variables = [\<lparr>name = ''--var-size'', expression = e\<rparr>],
      opts_sheets = [''._1wybgktf{font-size:var(--var-size)}'']\<rparr>"

section \<open>The hoister\<close>

lemma insertBefore_first_non_import_eq:
  "has_statement b \<Longrightarrow>
   insertBefore_first_non_import d b =
     Some (takeWhile isImportDeclaration b @ d # dropWhile isImportDeclaration b)"
  by (induction b) (auto simp: has_statement_def)

lemma insertBefore_first_non_import_None:
  "\<not> has_statement b \<Longrightarrow> insertBefore_first_non_import d b = None"
  by (induction b) (auto simp: has_statement_def)

lemma hoistSheet_hit:
  "sheets (state meta) sheet = Some i \<Longrightarrow> hoistSheet sheet meta = Inr (SheetIdentifier i, meta)"
  by (simp add: hoistSheet_def sheets_lookup_def)

lemma hoistSheet_miss:
  assumes miss: "sheets (state meta) sheet = None"
    and own: "sheet \<notin> set Object_prototype_keys"
    and stmt: "has_statement (body (program meta))"
  defines "uid \<equiv> generateUid_loop (program meta) 1"
  shows "hoistSheet sheet meta =
     Inr (SheetIdentifier uid,
          meta\<lparr>program := (program meta)
                  \<lparr>references := uid # references (program meta),
                   body := takeWhile isImportDeclaration (body (program meta)) @
                           VariableDeclaration ''const'' uid (StringLiteral sheet) #
                           dropWhile isImportDeclaration (body (program meta))\<rparr>,
               state := (state meta)\<lparr>sheets := (sheets (state meta))(sheet \<mapsto> uid)\<rparr>\<rparr>)"
  using miss own stmt
  by (simp add: hoistSheet_def sheets_lookup_def generateUidIdentifier_def Let_def uid_def
      insertBefore_first_non_import_eq)


lemma remdups_snoc: "remdups (xs @ [x]) = remdups (filter (\<lambda>y. y \<noteq> x) xs) @ [x]"
  by (induction xs) auto

lemma remdups_rev_filter_step:
  "remdups (rev (filter P (x # xs))) =
     (if P x then remdups (rev (filter (\<lambda>y. P y \<and> y \<noteq> x) xs)) @ [x]
      else remdups (rev (filter P xs)))"
proof (cases "P x")
  case True
  have "[y\<leftarrow>rev (filter P xs) . y \<noteq> x] = rev (filter (\<lambda>y. P y \<and> y \<noteq> x) xs)"
    by (simp add: rev_filter [symmetric] conj_commute)
  then show ?thesis
    using True by (simp add: remdups_snoc)
next
  case False
  then show ?thesis by simp
qed

lemma hoistSheets_run:
  assumes "sheets_inv meta"
    and "has_statement (body (program meta))"
    and "set ss \<inter> set Object_prototype_keys = {}"
  shows "\<exists>vs meta'.
      hoistSheets ss meta = Inr (vs, meta') \<and>
      sheets_inv meta' \<and>
      sheets (state meta) \<subseteq>\<^sub>m sheets (state meta') \<and>
      dom (sheets (state meta')) = dom (sheets (state meta)) \<union> set ss \<and>
      vs = map (\<lambda>s. SheetIdentifier (the (sheets (state meta') s))) ss \<and>
      body (program meta') =
        takeWhile isImportDeclaration (body (program meta)) @
        map (sheet_declaration (sheets (state meta')))
          (remdups (rev (filter (\<lambda>s. s \<notin> dom (sheets (state meta))) ss))) @
        dropWhile isImportDeclaration (body (program meta)) \<and>
      bindings (program meta') = bindings (program meta) \<and>
      compiledImports (state meta') = compiledImports (state meta) \<and>
      nonce (state meta') = nonce (state meta) \<and>
      set (references (program meta)) \<subseteq> set (references (program meta')) \<and>
      (\<forall>s \<in> set ss. s \<notin> dom (sheets (state meta)) \<longrightarrow>
         \<not> in_use (program meta) (the (sheets (state meta') s)))"
  using assms
proof (induction ss arbitrary: meta)
  case Nil
  then show ?case by simp
next
  case (Cons sheet rest)
  let ?m = "sheets (state meta)"
  let ?b = "body (program meta)"
  from Cons.prems have own: "sheet \<notin> set Object_prototype_keys"
    and own_rest: "set rest \<inter> set Object_prototype_keys = {}" by auto
  show ?case
  proof (cases "?m sheet")
    case (Some i)
    then have step: "hoistSheet sheet meta = Inr (SheetIdentifier i, meta)"
      by (rule hoistSheet_hit)
    from Cons.IH [OF Cons.prems(1) Cons.prems(2) own_rest]
    obtain vs meta' where run: "hoistSheets rest meta = Inr (vs, meta')"
      and inv: "sheets_inv meta'"
      and le: "?m \<subseteq>\<^sub>m sheets (state meta')"
      and d: "dom (sheets (state meta')) = dom ?m \<union> set rest"
      and vs: "vs = map (\<lambda>s. SheetIdentifier (the (sheets (state meta') s))) rest"
      and b: "body (program meta') =
        takeWhile isImportDeclaration ?b @
        map (sheet_declaration (sheets (state meta')))
          (remdups (rev (filter (\<lambda>s. s \<notin> dom ?m) rest))) @
        dropWhile isImportDeclaration ?b"
      and rest: "bindings (program meta') = bindings (program meta)"
        "compiledImports (state meta') = compiledImports (state meta)"
        "nonce (state meta') = nonce (state meta)"
        "set (references (program meta)) \<subseteq> set (references (program meta'))"
      and fr: "\<forall>s \<in> set rest. s \<notin> dom ?m \<longrightarrow>
         \<not> in_use (program meta) (the (sheets (state meta') s))"
      by blast
    from Some le have same: "sheets (state meta') sheet = Some i"
      by (metis domI map_le_def)
    have "hoistSheets (sheet # rest) meta = Inr (SheetIdentifier i # vs, meta')"
      using step run by simp
    moreover have "dom (sheets (state meta')) = dom ?m \<union> set (sheet # rest)"
      using d Some by auto
    moreover have "SheetIdentifier i # vs =
        map (\<lambda>s. SheetIdentifier (the (sheets (state meta') s))) (sheet # rest)"
      using vs same by simp
    moreover have "filter (\<lambda>s. s \<notin> dom ?m) (sheet # rest) = filter (\<lambda>s. s \<notin> dom ?m) rest"
      using Some by auto
    moreover have "\<forall>s \<in> set (sheet # rest). s \<notin> dom ?m \<longrightarrow>
         \<not> in_use (program meta) (the (sheets (state meta') s))"
      using fr Some by auto
    ultimately show ?thesis
      using inv le b rest by (metis (no_types, lifting))
  next
    case None
    define uid where "uid = generateUid_loop (program meta) 1"
    define meta1 where "meta1 =
      meta\<lparr>program := (program meta)
              \<lparr>references := uid # references (program meta),
               body := takeWhile isImportDeclaration ?b @
                       VariableDeclaration ''const'' uid (StringLiteral sheet) #
                       dropWhile isImportDeclaration ?b\<rparr>,
           state := (state meta)\<lparr>sheets := ?m(sheet \<mapsto> uid)\<rparr>\<rparr>"
    have step: "hoistSheet sheet meta = Inr (SheetIdentifier uid, meta1)"
      unfolding uid_def meta1_def
      by (rule hoistSheet_miss [OF None own Cons.prems(2)])
    have fresh: "uid \<notin> set (references (program meta))"
      using generateUid_loop_fresh [of "program meta" 1] by (simp add: uid_def in_use_def)
    from Cons.prems(1) have ran_sub: "ran ?m \<subseteq> set (references (program meta))"
      and inj: "inj_on ?m (dom ?m)" by (simp_all add: sheets_inv_def)
    have m1: "sheets (state meta1) = ?m(sheet \<mapsto> uid)" by (simp add: meta1_def)
    have b1: "body (program meta1) =
        takeWhile isImportDeclaration ?b @
        VariableDeclaration ''const'' uid (StringLiteral sheet) # dropWhile isImportDeclaration ?b"
      by (simp add: meta1_def)
    have uid_new: "uid \<notin> ran ?m" using fresh ran_sub by auto
    have inv1: "sheets_inv meta1"
    proof -
      have "ran (?m(sheet \<mapsto> uid)) \<subseteq> insert uid (ran ?m)"
        using None by (simp add: ran_map_upd)
      then have r: "ran (sheets (state meta1)) \<subseteq> set (references (program meta1))"
        using ran_sub by (auto simp: meta1_def)
      have "inj_on (?m(sheet \<mapsto> uid)) (insert sheet (dom ?m))"
      proof (rule inj_onI)
        fix x y
        assume x: "x \<in> insert sheet (dom ?m)" and y: "y \<in> insert sheet (dom ?m)"
          and e: "(?m(sheet \<mapsto> uid)) x = (?m(sheet \<mapsto> uid)) y"
        show "x = y"
        proof (cases "x = sheet")
          case True
          note xs = this
          show ?thesis
          proof (cases "y = sheet")
            case True
            with xs show ?thesis by simp
          next
            case False
            with xs e have "?m y = Some uid" by simp
            then have "uid \<in> ran ?m" by (rule ranI)
            with uid_new show ?thesis by simp
          qed
        next
          case False
          note xs = this
          show ?thesis
          proof (cases "y = sheet")
            case True
            with xs e have "?m x = Some uid" by simp
            then have "uid \<in> ran ?m" by (rule ranI)
            with uid_new show ?thesis by simp
          next
            case False
            with xs e have "?m x = ?m y" by simp
            moreover from xs x have "x \<in> dom ?m" by simp
            moreover from False y have "y \<in> dom ?m" by simp
            ultimately show ?thesis using inj by (meson inj_onD)
          qed
        qed
      qed
      then have i: "inj_on (sheets (state meta1)) (dom (sheets (state meta1)))"
        by (simp add: m1)
      from r i show ?thesis by (simp add: sheets_inv_def)
    qed
    have tw: "takeWhile isImportDeclaration (body (program meta1)) = takeWhile isImportDeclaration ?b"
      unfolding b1 by (subst takeWhile_append2) (auto dest: set_takeWhileD)
    have dw: "dropWhile isImportDeclaration (body (program meta1)) =
        VariableDeclaration ''const'' uid (StringLiteral sheet) # dropWhile isImportDeclaration ?b"
      unfolding b1 by (subst dropWhile_append2) (auto dest: set_takeWhileD)
    have stmt1: "has_statement (body (program meta1))"
      unfolding b1 has_statement_def by auto
    from Cons.IH [OF inv1 stmt1 own_rest]
    obtain vs meta' where run: "hoistSheets rest meta1 = Inr (vs, meta')"
      and inv: "sheets_inv meta'"
      and le: "sheets (state meta1) \<subseteq>\<^sub>m sheets (state meta')"
      and d: "dom (sheets (state meta')) = dom (sheets (state meta1)) \<union> set rest"
      and vs: "vs = map (\<lambda>s. SheetIdentifier (the (sheets (state meta') s))) rest"
      and b: "body (program meta') =
        takeWhile isImportDeclaration (body (program meta1)) @
        map (sheet_declaration (sheets (state meta')))
          (remdups (rev (filter (\<lambda>s. s \<notin> dom (sheets (state meta1))) rest))) @
        dropWhile isImportDeclaration (body (program meta1))"
      and rest: "bindings (program meta') = bindings (program meta1)"
        "compiledImports (state meta') = compiledImports (state meta1)"
        "nonce (state meta') = nonce (state meta1)"
        "set (references (program meta1)) \<subseteq> set (references (program meta'))"
      and fr: "\<forall>s \<in> set rest. s \<notin> dom (sheets (state meta1)) \<longrightarrow>
         \<not> in_use (program meta1) (the (sheets (state meta') s))"
      by blast
    have same: "sheets (state meta') sheet = Some uid"
      using le by (metis m1 domI fun_upd_same map_le_def)
    have le0: "?m \<subseteq>\<^sub>m sheets (state meta')"
    proof -
      have "?m \<subseteq>\<^sub>m ?m(sheet \<mapsto> uid)" using None by (auto simp: map_le_def)
      with le show ?thesis by (metis m1 map_le_trans)
    qed
    have run0: "hoistSheets (sheet # rest) meta = Inr (SheetIdentifier uid # vs, meta')"
      using step run by simp
    have d0: "dom (sheets (state meta')) = dom ?m \<union> set (sheet # rest)"
      using d by (auto simp: m1)
    have vs0: "SheetIdentifier uid # vs =
        map (\<lambda>s. SheetIdentifier (the (sheets (state meta') s))) (sheet # rest)"
      using vs same by simp
    have decl: "VariableDeclaration ''const'' uid (StringLiteral sheet) =
        sheet_declaration (sheets (state meta')) sheet"
      using same by (simp add: sheet_declaration_def)
    have flt: "filter (\<lambda>s. s \<notin> dom (sheets (state meta1))) rest =
        filter (\<lambda>s. s \<notin> dom ?m \<and> s \<noteq> sheet) rest"
      by (rule filter_cong) (auto simp: m1)
    have rd: "remdups (rev (filter (\<lambda>s. s \<notin> dom ?m) (sheet # rest))) =
        remdups (rev (filter (\<lambda>s. s \<notin> dom ?m \<and> s \<noteq> sheet) rest)) @ [sheet]"
      using None by (subst remdups_rev_filter_step) (simp add: domIff)
    have b0: "body (program meta') =
        takeWhile isImportDeclaration ?b @
        map (sheet_declaration (sheets (state meta')))
          (remdups (rev (filter (\<lambda>s. s \<notin> dom ?m) (sheet # rest)))) @
        dropWhile isImportDeclaration ?b"
      unfolding b tw dw flt rd decl by simp
    have rest0: "bindings (program meta') = bindings (program meta)"
        "compiledImports (state meta') = compiledImports (state meta)"
        "nonce (state meta') = nonce (state meta)"
        "set (references (program meta)) \<subseteq> set (references (program meta'))"
      using rest by (auto simp: meta1_def)
    have use1: "in_use (program meta) u \<Longrightarrow> in_use (program meta1) u" for u
      by (auto simp: in_use_def meta1_def)
    have fr0: "\<forall>s \<in> set (sheet # rest). s \<notin> dom ?m \<longrightarrow>
         \<not> in_use (program meta) (the (sheets (state meta') s))"
    proof (intro ballI impI)
      fix s
      assume s: "s \<in> set (sheet # rest)" and new: "s \<notin> dom ?m"
      show "\<not> in_use (program meta) (the (sheets (state meta') s))"
      proof (cases "s = sheet")
        case True
        then show ?thesis
          using same generateUid_loop_fresh [of "program meta" 1] by (simp add: uid_def)
      next
        case False
        with s new have "s \<in> set rest" "s \<notin> dom (sheets (state meta1))"
          by (auto simp: m1)
        with fr have "\<not> in_use (program meta1) (the (sheets (state meta') s))" by blast
        then show ?thesis using use1 by blast
      qed
    qed
    show ?thesis
      by (rule exI [of _ "SheetIdentifier uid # vs"], rule exI [of _ meta'], intro conjI)
        (fact run0 inv le0 d0 vs0 b0 rest0 fr0)+
  qed
qed


text \<open>
  C1. A module compilation starts with \<open>state.sheets\<close> empty. Let the sheets passed to
  \<open>hoistSheet\<close> during it be \<open>ss\<close>, in call order, none of them the name of a member of
  \<open>Object.prototype\<close>, and let the body have a statement that is not an import. Then no call
  fails; the body ends as its leading imports, then one \<open>const\<close> declaration per distinct
  sheet (the latest first, each before what was the first non-import statement), then the
  rest of the body; the number of declarations is the number of distinct sheets;
  \<open>state.sheets\<close> records exactly the sheets of \<open>ss\<close>, with distinct identifiers for
  distinct sheets, none of them in use in the module before; every call returned the
  identifier recorded for its sheet; and a further call for any of the sheets returns that
  identifier and changes nothing.
\<close>

theorem hoistSheet_one_constant_per_sheet:
  assumes "sheets (state meta) = Map.empty"
    and "has_statement (body (program meta))"
    and "set ss \<inter> set Object_prototype_keys = {}"
  shows "\<exists>vs meta'.
      hoistSheets ss meta = Inr (vs, meta') \<and>
      body (program meta') =
        takeWhile isImportDeclaration (body (program meta)) @
        map (sheet_declaration (sheets (state meta'))) (remdups (rev ss)) @
        dropWhile isImportDeclaration (body (program meta)) \<and>
      length (remdups (rev ss)) = card (set ss) \<and>
      dom (sheets (state meta')) = set ss \<and>
      inj_on (sheets (state meta')) (set ss) \<and>
      (\<forall>s \<in> set ss. \<not> in_use (program meta) (the (sheets (state meta') s))) \<and>
      vs = map (\<lambda>s. SheetIdentifier (the (sheets (state meta') s))) ss \<and>
      (\<forall>s \<in> set ss.
         hoistSheet s meta' = Inr (SheetIdentifier (the (sheets (state meta') s)), meta'))"
proof -
  have inv0: "sheets_inv meta"
    using assms(1) by (simp add: sheets_inv_def)
  from hoistSheets_run [OF inv0 assms(2) assms(3)]
  obtain vs meta' where run: "hoistSheets ss meta = Inr (vs, meta')"
    and inv: "sheets_inv meta'"
    and d: "dom (sheets (state meta')) = dom (sheets (state meta)) \<union> set ss"
    and vs: "vs = map (\<lambda>s. SheetIdentifier (the (sheets (state meta') s))) ss"
    and b: "body (program meta') =
        takeWhile isImportDeclaration (body (program meta)) @
        map (sheet_declaration (sheets (state meta')))
          (remdups (rev (filter (\<lambda>s. s \<notin> dom (sheets (state meta))) ss))) @
        dropWhile isImportDeclaration (body (program meta))"
    and fr: "\<forall>s \<in> set ss. s \<notin> dom (sheets (state meta)) \<longrightarrow>
         \<not> in_use (program meta) (the (sheets (state meta') s))"
    by blast
  have d': "dom (sheets (state meta')) = set ss"
    using d assms(1) by simp
  have b': "body (program meta') =
        takeWhile isImportDeclaration (body (program meta)) @
        map (sheet_declaration (sheets (state meta'))) (remdups (rev ss)) @
        dropWhile isImportDeclaration (body (program meta))"
    using b assms(1) by simp
  have len: "length (remdups (rev ss)) = card (set ss)"
    by (simp add: length_remdups_card_conv)
  have inj: "inj_on (sheets (state meta')) (set ss)"
    using inv d' by (simp add: sheets_inv_def)
  have fr': "\<forall>s \<in> set ss. \<not> in_use (program meta) (the (sheets (state meta') s))"
    using fr assms(1) by simp
  have again: "\<forall>s \<in> set ss.
      hoistSheet s meta' = Inr (SheetIdentifier (the (sheets (state meta') s)), meta')"
  proof
    fix s
    assume "s \<in> set ss"
    with d' obtain i where "sheets (state meta') s = Some i" by auto
    then show "hoistSheet s meta' = Inr (SheetIdentifier (the (sheets (state meta') s)), meta')"
      using hoistSheet_hit [of meta' s i] by simp
  qed
  show ?thesis
    by (rule exI [of _ vs], rule exI [of _ meta'], intro conjI)
      (fact run b' len d' inj fr' vs again)+
qed

lemma example_hoistSheets:
  "hoistSheets [''._1wyb1fwx{font-size:12px}'', ''._1wyb1tcg{font-size:24px}'',
                ''._1wyb1fwx{font-size:12px}''] example_meta =
   Inr ([SheetIdentifier ''_'', SheetIdentifier ''_2'', SheetIdentifier ''_''],
        \<lparr>state = \<lparr>compiledImports = None,
                  sheets = [''._1wyb1fwx{font-size:12px}'' \<mapsto> ''_'',
                            ''._1wyb1tcg{font-size:24px}'' \<mapsto> ''_2''],
                  nonce = None\<rparr>,
         program = \<lparr>body = [ImportDeclaration [] ''@compiled/core'',
                         ImportDeclaration [ImportDefaultSpecifier ''React''] ''react'',
                         VariableDeclaration ''const'' ''_2'' (StringLiteral ''._1wyb1tcg{font-size:24px}''),
                         VariableDeclaration ''const'' ''_'' (StringLiteral ''._1wyb1fwx{font-size:12px}''),
                         OtherStatement [JSXOpeningSite 0, JSXOpeningSite 1]],
                 bindings = [''React'', ''Component''], references = [''_2'', ''_'']\<rparr>\<rparr>)"
  by (simp add: example_meta_def pre_def hoistSheet_def sheets_lookup_def Object_prototype_keys_def
      generateUidIdentifier_def generateUid_loop.simps in_use_def uid_name_def decimal.simps
      digit_char_def Let_def)

theorem hoistSheet_one_constant_per_sheet_witness:
  "sheets (state example_meta) = Map.empty \<and>
   has_statement (body (program example_meta)) \<and>
   set [''._1wyb1fwx{font-size:12px}'', ''._1wyb1tcg{font-size:24px}'',
        ''._1wyb1fwx{font-size:12px}''] \<inter> set Object_prototype_keys = {} \<and>
   (\<exists>vs meta'.
      hoistSheets [''._1wyb1fwx{font-size:12px}'', ''._1wyb1tcg{font-size:24px}'',
                   ''._1wyb1fwx{font-size:12px}''] example_meta = Inr (vs, meta') \<and>
      vs = [SheetIdentifier ''_'', SheetIdentifier ''_2'', SheetIdentifier ''_''] \<and>
      body (program meta') =
        [ImportDeclaration [] ''@compiled/core'',
         ImportDeclaration [ImportDefaultSpecifier ''React''] ''react'',
         VariableDeclaration ''const'' ''_2'' (StringLiteral ''._1wyb1tcg{font-size:24px}''),
         VariableDeclaration ''const'' ''_'' (StringLiteral ''._1wyb1fwx{font-size:12px}''),
         OtherStatement [JSXOpeningSite 0, JSXOpeningSite 1]] \<and>
      card (dom (sheets (state meta'))) = 2)"
proof -
  let ?ss = "[''._1wyb1fwx{font-size:12px}'', ''._1wyb1tcg{font-size:24px}'',
              ''._1wyb1fwx{font-size:12px}'']"
  have h1: "sheets (state example_meta) = Map.empty"
    by (simp add: example_meta_def pre_def)
  have h2: "has_statement (body (program example_meta))"
    by (simp add: example_meta_def has_statement_def)
  have h3: "set ?ss \<inter> set Object_prototype_keys = {}"
    by (simp add: Object_prototype_keys_def)
  from hoistSheet_one_constant_per_sheet [OF h1 h2 h3]
  obtain vs meta' where run: "hoistSheets ?ss example_meta = Inr (vs, meta')"
    and d: "dom (sheets (state meta')) = set ?ss"
    by blast
  from run [unfolded example_hoistSheets]
  have vs: "vs = [SheetIdentifier ''_'', SheetIdentifier ''_2'', SheetIdentifier ''_'']"
    and b: "body (program meta') =
        [ImportDeclaration [] ''@compiled/core'',
         ImportDeclaration [ImportDefaultSpecifier ''React''] ''react'',
         VariableDeclaration ''const'' ''_2'' (StringLiteral ''._1wyb1tcg{font-size:24px}''),
         VariableDeclaration ''const'' ''_'' (StringLiteral ''._1wyb1fwx{font-size:12px}''),
         OtherStatement [JSXOpeningSite 0, JSXOpeningSite 1]]"
    by auto
  have c: "card (dom (sheets (state meta'))) = 2"
    unfolding d by (simp add: card_insert_if)
  from h1 h2 h3 run vs b c show ?thesis by blast
qed

section \<open>The entry visitor: import rewriting and the React import\<close>

lemma filter_specifiers_Some:
  "filter_specifiers specs (Some c) =
     (filter (\<lambda>s. \<not> is_styled_specifier s) specs,
      Some (c\<lparr>styled := styled_local specs (styled c)\<rparr>))"
proof (induction specs arbitrary: c)
  case Nil
  then show ?case by simp
next
  case (Cons s ss)
  show ?case
  proof (cases s)
    case (ImportSpecifier imp loc)
    then show ?thesis
      using Cons.IH [of c] Cons.IH [of "c\<lparr>styled := Some loc\<rparr>"]
      by (simp add: is_styled_specifier_def)
  next
    case (ImportDefaultSpecifier x)
    then show ?thesis using Cons.IH [of c] by (simp add: is_styled_specifier_def)
  next
    case (ImportNamespaceSpecifier x)
    then show ?thesis using Cons.IH [of c] by (simp add: is_styled_specifier_def)
  qed
qed

text \<open>
  C6. On an import declaration whose source is \<open>@compiled/core\<close> the visitor sets
  \<open>state.compiledImports\<close> (the module is opted in), drops every named specifier that
  imports \<open>styled\<close> and records the local name of the last one in
  \<open>state.compiledImports.styled\<close>, keeps every other specifier in order, and appends the
  named specifiers \<open>ax\<close>, \<open>CC\<close> and \<open>CS\<close>, whatever the module goes on to use.
\<close>

theorem ImportDeclaration_visitor_compiled_core:
  "ImportDeclaration_visitor (ImportDeclaration specs ''@compiled/core'') st =
     (ImportDeclaration
        (filter (\<lambda>s. \<not> is_styled_specifier s) specs @
         [ImportSpecifier ''ax'' ''ax'', ImportSpecifier ''CC'' ''CC'', ImportSpecifier ''CS'' ''CS''])
        ''@compiled/core'',
      st\<lparr>compiledImports := Some \<lparr>styled = styled_local specs None\<rparr>\<rparr>)"
  by (simp add: ImportDeclaration_visitor_def filter_specifiers_Some importSpecifier_def)

theorem ImportDeclaration_visitor_compiled_core_witness:
  "ImportDeclaration_visitor
     (ImportDeclaration [ImportSpecifier ''styled'' ''s'', ImportSpecifier ''keyframes'' ''keyframes'']
        ''@compiled/core'') (pre None) =
   (ImportDeclaration
      [ImportSpecifier ''keyframes'' ''keyframes'', ImportSpecifier ''ax'' ''ax'',
       ImportSpecifier ''CC'' ''CC'', ImportSpecifier ''CS'' ''CS''] ''@compiled/core'',
    \<lparr>compiledImports = Some \<lparr>styled = Some ''s''\<rparr>, sheets = Map.empty, nonce = None\<rparr>)"
  using ImportDeclaration_visitor_compiled_core
    [of "[ImportSpecifier ''styled'' ''s'', ImportSpecifier ''keyframes'' ''keyframes'']" "pre None"]
  by (simp add: is_styled_specifier_def pre_def)

text \<open>
  C7. At \<open>Program.exit\<close> the body gets \<open>import * as React from 'react'\<close> as its new first
  statement exactly when the module was opted in and its scope has no binding named
  \<open>React\<close>; in every other case the program is returned as it was.
\<close>

theorem Program_exit_react_import:
  "Program_exit st p =
     (if compiledImports st \<noteq> None \<and> ''React'' \<notin> set (bindings p)
      then p\<lparr>body := ImportDeclaration [ImportNamespaceSpecifier ''React''] ''react'' # body p\<rparr>
      else p)
   \<and> ((Program_exit st p \<noteq> p) = (compiledImports st \<noteq> None \<and> ''React'' \<notin> set (bindings p)))"
proof -
  have neq: "p\<lparr>body := react_import # body p\<rparr> \<noteq> p"
  proof
    assume "p\<lparr>body := react_import # body p\<rparr> = p"
    then have "body (p\<lparr>body := react_import # body p\<rparr>) = body p" by simp
    then show False by simp
  qed
  show ?thesis
    using neq by (simp add: Program_exit_def react_import_def)
qed

theorem Program_exit_react_import_witness:
  "body (Program_exit \<lparr>compiledImports = Some \<lparr>styled = None\<rparr>, sheets = Map.empty, nonce = None\<rparr>
           \<lparr>body = [ImportDeclaration [] ''@compiled/core''], bindings = [], references = []\<rparr>) =
     [ImportDeclaration [ImportNamespaceSpecifier ''React''] ''react'',
      ImportDeclaration [] ''@compiled/core''] \<and>
   body (Program_exit \<lparr>compiledImports = Some \<lparr>styled = None\<rparr>, sheets = Map.empty, nonce = None\<rparr>
           \<lparr>body = [ImportDeclaration [] ''@compiled/core''], bindings = [''React''],
            references = []\<rparr>) =
     [ImportDeclaration [] ''@compiled/core'']"
  using Program_exit_react_import
    [of "\<lparr>compiledImports = Some \<lparr>styled = None\<rparr>, sheets = Map.empty, nonce = None\<rparr>"
        "\<lparr>body = [ImportDeclaration [] ''@compiled/core''], bindings = [], references = []\<rparr>"]
    Program_exit_react_import
    [of "\<lparr>compiledImports = Some \<lparr>styled = None\<rparr>, sheets = Map.empty, nonce = None\<rparr>"
        "\<lparr>body = [ImportDeclaration [] ''@compiled/core''], bindings = [''React''],
          references = []\<rparr>"]
  by simp

section \<open>A module without the enabling import\<close>

lemma visit_site_not_opted_in:
  "compiledImports (state meta) = None \<Longrightarrow>
   visit_site visitStyledPath visitCssPropPath path i meta = Inr meta"
  by (cases path)
    (simp_all add: TaggedTemplateExpression_visitor_def CallExpression_visitor_def
      JSXOpeningElement_visitor_def)

lemma visit_sites_not_opted_in:
  "compiledImports (state meta) = None \<Longrightarrow>
   visit_sites visitStyledPath visitCssPropPath paths i meta = Inr (i, meta)"
  by (induction paths) (simp_all add: visit_site_not_opted_in)

lemma ImportDeclaration_visitor_other_source:
  "src \<noteq> ''@compiled/core'' \<Longrightarrow>
   ImportDeclaration_visitor (ImportDeclaration specs src) st = (ImportDeclaration specs src, st)"
  by (simp add: ImportDeclaration_visitor_def)

lemma traverse_statements_not_opted_in:
  assumes "compiledImports (state meta) = None"
    and "\<forall>s \<in> set (body (program meta)). \<not> imports_compiled_core s"
  shows "traverse_statements visitStyledPath visitCssPropPath n i meta = Inr meta"
  using assms
proof (induction n arbitrary: i)
  case 0
  then show ?case by simp
next
  case (Suc n)
  show ?case
  proof (cases "length (body (program meta)) \<le> i")
    case True
    then show ?thesis by simp
  next
    case False
    then have mem: "body (program meta) ! i \<in> set (body (program meta))" by simp
    show ?thesis
    proof (cases "body (program meta) ! i")
      case (ImportDeclaration specs src)
      with mem Suc.prems(2) have "src \<noteq> ''@compiled/core''"
        by (auto simp: imports_compiled_core_def)
      then have v: "ImportDeclaration_visitor (ImportDeclaration specs src) (state meta) =
          (ImportDeclaration specs src, state meta)"
        by (rule ImportDeclaration_visitor_other_source)
      have "(body (program meta))[i := ImportDeclaration specs src] = body (program meta)"
        using ImportDeclaration by (metis list_update_id)
      then have same: "meta\<lparr>state := state meta,
            program := (program meta)\<lparr>body := (body (program meta))[i := ImportDeclaration specs src]\<rparr>\<rparr>
          = meta" by simp
      show ?thesis
        using False ImportDeclaration v same Suc.IH [OF Suc.prems] by simp
    next
      case (VariableDeclaration kind d e)
      then show ?thesis using False Suc.IH [OF Suc.prems] by simp
    next
      case (OtherStatement paths)
      then show ?thesis
        using False Suc.IH [OF Suc.prems] visit_sites_not_opted_in [OF Suc.prems(1)] by simp
    qed
  qed
qed

text \<open>
  C4. If no import declaration of the module has the source \<open>@compiled/core\<close>, a run of
  the pass returns the program it was given: \<open>state.compiledImports\<close> is never set, so the
  import visitor returns every statement and the state as they were, the three dispatching
  visitors return before calling \<open>visitStyledPath\<close> or \<open>visitCssPropPath\<close>, whatever these
  do, and \<open>Program.exit\<close> adds no import.
\<close>

theorem plugin_untouched_without_compiled_core:
  assumes "\<forall>s \<in> set (body p). \<not> imports_compiled_core s"
  shows "plugin visitStyledPath visitCssPropPath nonce_option p = Inr p \<and>
    (\<forall>s \<in> set (body p). \<forall>st. ImportDeclaration_visitor s st = (s, st)) \<and>
    Program_exit (pre nonce_option) p = p \<and>
    (\<forall>path i. visit_site visitStyledPath visitCssPropPath path i
        \<lparr>state = pre nonce_option, program = p\<rparr> = Inr \<lparr>state = pre nonce_option, program = p\<rparr>)"
proof -
  let ?meta = "\<lparr>state = pre nonce_option, program = p\<rparr>"
  have none: "compiledImports (state ?meta) = None" by (simp add: pre_def)
  have "traverse_statements visitStyledPath visitCssPropPath (length (body p)) 0 ?meta = Inr ?meta"
    by (rule traverse_statements_not_opted_in [OF none]) (use assms in simp)
  moreover have ex: "Program_exit (pre nonce_option) p = p"
    by (simp add: Program_exit_def pre_def)
  ultimately have a: "plugin visitStyledPath visitCssPropPath nonce_option p = Inr p"
    by (simp add: plugin_def)
  have b: "\<forall>s \<in> set (body p). \<forall>st. ImportDeclaration_visitor s st = (s, st)"
  proof (intro ballI allI)
    fix s st
    assume "s \<in> set (body p)"
    with assms have "\<not> imports_compiled_core s" by blast
    then show "ImportDeclaration_visitor s st = (s, st)"
      by (cases s) (simp_all add: imports_compiled_core_def ImportDeclaration_visitor_def)
  qed
  have c: "\<forall>path i. visit_site visitStyledPath visitCssPropPath path i ?meta = Inr ?meta"
    using visit_site_not_opted_in [OF none] by blast
  from a b ex c show ?thesis by blast
qed

theorem plugin_untouched_without_compiled_core_witness:
  "\<not> imports_compiled_core (ImportDeclaration [ImportDefaultSpecifier ''React''] ''react'') \<and>
   \<not> imports_compiled_core (OtherStatement [CallSite 0, JSXOpeningSite 1, TaggedTemplateSite 2]) \<and>
   plugin (\<lambda>path i meta. Inl (Error ''visitStyledPath'')) (\<lambda>path i meta. Inl (Error ''visitCssPropPath''))
     None
     \<lparr>body = [ImportDeclaration [ImportDefaultSpecifier ''React''] ''react'',
              OtherStatement [CallSite 0, JSXOpeningSite 1, TaggedTemplateSite 2]],
      bindings = [''React''], references = []\<rparr> =
   Inr \<lparr>body = [ImportDeclaration [ImportDefaultSpecifier ''React''] ''react'',
              OtherStatement [CallSite 0, JSXOpeningSite 1, TaggedTemplateSite 2]],
        bindings = [''React''], references = []\<rparr>"
proof -
  let ?p = "\<lparr>body = [ImportDeclaration [ImportDefaultSpecifier ''React''] ''react'',
              OtherStatement [CallSite 0, JSXOpeningSite 1, TaggedTemplateSite 2]],
      bindings = [''React''], references = []\<rparr>"
  have h: "\<forall>s \<in> set (body ?p). \<not> imports_compiled_core s"
    by (simp add: imports_compiled_core_def)
  from plugin_untouched_without_compiled_core [OF h] h show ?thesis by simp
qed

section \<open>The inline style object\<close>

lemma keep_first_Cons: "keep_first (x # xs) = x # filter (\<lambda>y. y \<noteq> x) (keep_first xs)"
  by (simp add: keep_first_def remdups_snoc remdups_filter rev_filter)

lemma keep_first_Nil: "keep_first [] = []"
  by (simp add: keep_first_def)

lemma set_keep_first: "set (keep_first xs) = set xs"
  by (simp add: keep_first_def)

lemma distinct_keep_first: "distinct (keep_first xs)"
  by (simp add: keep_first_def)

lemma unique_from_first:
  "unique_from seen items getter =
     map (\<lambda>k. the (find (\<lambda>v. getter v = k) items))
       (filter (\<lambda>k. k \<notin> set seen) (keep_first (map getter items)))"
proof (induction items arbitrary: seen)
  case Nil
  then show ?case by (simp add: keep_first_Nil)
next
  case (Cons v rest)
  let ?K = "keep_first (map getter rest)"
  have K: "keep_first (map getter (v # rest)) = getter v # filter (\<lambda>y. y \<noteq> getter v) ?K"
    by (simp add: keep_first_Cons)
  show ?case
  proof (cases "getter v \<in> set seen")
    case True
    have f: "filter (\<lambda>k. k \<notin> set seen) (keep_first (map getter (v # rest))) =
        filter (\<lambda>k. k \<notin> set seen) ?K"
    proof -
      have "filter (\<lambda>k. k \<notin> set seen) (filter (\<lambda>y. y \<noteq> getter v) ?K) =
          filter (\<lambda>k. k \<notin> set seen) ?K"
        unfolding filter_filter using True by (intro filter_cong) auto
      then show ?thesis unfolding K using True by simp
    qed
    have m: "map (\<lambda>k. the (find (\<lambda>w. getter w = k) (v # rest))) (filter (\<lambda>k. k \<notin> set seen) ?K) =
          map (\<lambda>k. the (find (\<lambda>w. getter w = k) rest)) (filter (\<lambda>k. k \<notin> set seen) ?K)"
      using True by (intro map_cong) auto
    have "unique_from seen (v # rest) getter = unique_from seen rest getter"
      using True by simp
    also have "\<dots> = map (\<lambda>k. the (find (\<lambda>w. getter w = k) rest)) (filter (\<lambda>k. k \<notin> set seen) ?K)"
      by (rule Cons.IH)
    finally show ?thesis
      unfolding f m .
  next
    case False
    have f: "filter (\<lambda>k. k \<notin> set seen) (keep_first (map getter (v # rest))) =
        getter v # filter (\<lambda>k. k \<notin> set (getter v # seen)) ?K"
    proof -
      have "filter (\<lambda>k. k \<notin> set seen) (filter (\<lambda>y. y \<noteq> getter v) ?K) =
          filter (\<lambda>k. k \<notin> set (getter v # seen)) ?K"
        unfolding filter_filter by (intro filter_cong) auto
      then show ?thesis unfolding K using False by simp
    qed
    have m: "map (\<lambda>k. the (find (\<lambda>w. getter w = k) (v # rest)))
            (filter (\<lambda>k. k \<notin> set (getter v # seen)) ?K) =
          map (\<lambda>k. the (find (\<lambda>w. getter w = k) rest))
            (filter (\<lambda>k. k \<notin> set (getter v # seen)) ?K)"
      by (intro map_cong) auto
    have "unique_from seen (v # rest) getter = v # unique_from (getter v # seen) rest getter"
      using False by simp
    also have "unique_from (getter v # seen) rest getter =
        map (\<lambda>k. the (find (\<lambda>w. getter w = k) rest))
          (filter (\<lambda>k. k \<notin> set (getter v # seen)) ?K)"
      by (rule Cons.IH)
    finally show ?thesis
      unfolding f using m by simp
  qed
qed

lemma unique_first:
  "unique items getter =
     map (\<lambda>k. the (find (\<lambda>v. getter v = k) items)) (keep_first (map getter items))"
  by (simp add: unique_def unique_from_first)

lemma getter_the_find:
  "k \<in> getter ` set items \<Longrightarrow> getter (the (find (\<lambda>v. getter v = k) items)) = k"
  by (induction items) auto

lemma map_getter_unique: "map getter (unique items getter) = keep_first (map getter items)"
proof -
  have "map (\<lambda>k. getter (the (find (\<lambda>v. getter v = k) items))) (keep_first (map getter items))
      = map (\<lambda>k. k) (keep_first (map getter items))"
    by (rule map_cong) (auto simp: set_keep_first getter_the_find)
  then show ?thesis by (simp add: unique_first o_def)
qed

lemma map_state_fst:
  "(\<And>x s. h (fst (f x s)) = g x) \<Longrightarrow> map h (fst (map_state f xs s)) = map g xs"
  by (induction xs arbitrary: s) (simp_all add: split_def Let_def)

lemma buildCssVariablesProp_default:
  "fst (buildCssVariablesProp vars default_transform ()) =
     map (\<lambda>v. ObjectProperty (StringLiteral (name v)) (expression v)) (unique vars name)"
proof -
  have "map (\<lambda>p. p) (fst (buildCssVariablesProp vars default_transform ())) =
     map (\<lambda>v. ObjectProperty (StringLiteral (name v)) (expression v)) (unique vars name)"
    unfolding buildCssVariablesProp_def
    by (rule map_state_fst) (simp add: default_transform_def)
  then show ?thesis by simp
qed

lemma buildCssVariablesProp_keys:
  "map property_key (fst (buildCssVariablesProp vars transform s)) =
     map (\<lambda>v. Some (StringLiteral (name v))) (unique vars name)"
  unfolding buildCssVariablesProp_def
  by (rule map_state_fst) (simp add: split_def Let_def)

lemma buildCssVariablesProp_default_first:
  "fst (buildCssVariablesProp vars default_transform ()) =
     map (\<lambda>n. ObjectProperty (StringLiteral n)
                (expression (the (find (\<lambda>v. name v = n) vars))))
       (keep_first (map name vars))"
proof -
  have "map (\<lambda>k. ObjectProperty (StringLiteral (name (the (find (\<lambda>v. name v = k) vars))))
               (expression (the (find (\<lambda>v. name v = k) vars))))
          (keep_first (map name vars)) =
        map (\<lambda>n. ObjectProperty (StringLiteral n)
              (expression (the (find (\<lambda>v. name v = n) vars))))
          (keep_first (map name vars))"
    by (rule map_cong) (auto simp: set_keep_first getter_the_find)
  then show ?thesis
    by (simp add: buildCssVariablesProp_default unique_first o_def)
qed

lemma buildCssVariablesProp_names:
  "map property_key (fst (buildCssVariablesProp vars transform s)) =
     map (\<lambda>n. Some (StringLiteral n)) (keep_first (map name vars))"
proof -
  have "map (\<lambda>v. Some (StringLiteral (name v))) (unique vars name) =
      map (\<lambda>n. Some (StringLiteral n)) (map name (unique vars name))"
    by (simp add: o_def)
  then show ?thesis
    by (simp add: buildCssVariablesProp_keys map_getter_unique)
qed

text \<open>
  C5. The properties \<open>buildCssVariablesProp\<close> builds from a sequence of variables are, with
  the default callback, one property per distinct variable name, in the order in which the
  names first occur, each with the expression of the first variable of its name; with any
  callback the keys are these names in this order.
\<close>

theorem buildCssVariablesProp_first_occurrence:
  "fst (buildCssVariablesProp vars default_transform ()) =
     map (\<lambda>n. ObjectProperty (StringLiteral n)
                (expression (the (find (\<lambda>v. name v = n) vars))))
       (keep_first (map name vars)) \<and>
   map property_key (fst (buildCssVariablesProp vars transform s)) =
     map (\<lambda>n. Some (StringLiteral n)) (keep_first (map name vars)) \<and>
   distinct (keep_first (map name vars)) \<and>
   set (keep_first (map name vars)) = name ` set vars"
  using buildCssVariablesProp_default_first [of vars] buildCssVariablesProp_names [of vars transform s]
  by (simp add: distinct_keep_first set_keep_first)

theorem buildCssVariablesProp_first_occurrence_witness:
  "fst (buildCssVariablesProp
          [\<lparr>name = ''--var-a'', expression = Identifier ''x''\<rparr>,
           \<lparr>name = ''--var-b'', expression = Identifier ''y''\<rparr>,
           \<lparr>name = ''--var-a'', expression = Identifier ''z''\<rparr>] default_transform ()) =
   [ObjectProperty (StringLiteral ''--var-a'') (Identifier ''x''),
    ObjectProperty (StringLiteral ''--var-b'') (Identifier ''y'')]"
  using buildCssVariablesProp_first_occurrence
    [of "[\<lparr>name = ''--var-a'', expression = Identifier ''x''\<rparr>,
          \<lparr>name = ''--var-b'', expression = Identifier ''y''\<rparr>,
          \<lparr>name = ''--var-a'', expression = Identifier ''z''\<rparr>]"
        default_transform "()"]
  by (simp add: keep_first_def)

section \<open>The css prop: class name and inline style\<close>

lemma forEach_splice_plain:
  "\<forall>p \<in> set ps. \<not> isObjectMethod p \<Longrightarrow> length done = i \<Longrightarrow>
   forEach_splice ps i (done @ dyn) = done @ ps @ dyn"
proof (induction ps arbitrary: i "done")
  case Nil
  then show ?case by simp
next
  case (Cons p ps)
  from Cons.prems have "splice_insert i p (done @ dyn) = (done @ [p]) @ dyn"
    by (simp add: splice_insert_def)
  moreover have "forEach_splice ps (Suc i) ((done @ [p]) @ dyn) = (done @ [p]) @ ps @ dyn"
    using Cons.prems by (intro Cons.IH) auto
  ultimately show ?case using Cons.prems by simp
qed

lemma mset_splice_insert: "mset (splice_insert i x xs) = add_mset x (mset xs)"
proof -
  have "mset (take i xs) + mset (drop i xs) = mset xs"
    by (metis append_take_drop_id mset_append)
  then show ?thesis by (simp add: splice_insert_def)
qed

lemma set_splice_insert: "set (splice_insert i x xs) = insert x (set xs)"
  by (metis mset_splice_insert set_mset_add_mset_insert set_mset_mset)

lemma forEach_splice_mset:
  "mset (forEach_splice ps i dyn) = mset (filter (\<lambda>p. \<not> isObjectMethod p) ps) + mset dyn"
  by (induction ps arbitrary: i dyn) (simp_all add: mset_splice_insert)

lemma forEach_splice_no_method:
  "\<forall>q \<in> set dyn. \<not> isObjectMethod q \<Longrightarrow> \<forall>q \<in> set (forEach_splice ps i dyn). \<not> isObjectMethod q"
proof (induction ps arbitrary: i dyn)
  case Nil
  then show ?case by simp
next
  case (Cons p ps)
  show ?case
  proof (cases "isObjectMethod p")
    case True
    then show ?thesis using Cons.IH [OF Cons.prems] by simp
  next
    case False
    with Cons.prems have "\<forall>q \<in> set (splice_insert i p dyn). \<not> isObjectMethod q"
      by (simp add: set_splice_insert)
    from Cons.IH [OF this] False show ?thesis by simp
  qed
qed

lemma find_index_from_map:
  "map P xs = map P ys \<Longrightarrow> find_index_from P xs k = find_index_from P ys k"
proof (induction xs arbitrary: ys k)
  case Nil
  then show ?case by simp
next
  case (Cons x xs)
  then obtain y ys' where ys: "ys = y # ys'" by (cases ys) auto
  with Cons.prems have "P x = P y" "map P xs = map P ys'" by auto
  with Cons.IH [of ys' "Suc k"] ys show ?case by simp
qed

lemma find_index_from_append:
  "\<not> P y \<Longrightarrow> find_index_from P (xs @ [y]) k = find_index_from P xs k"
  by (induction xs arbitrary: k) auto

lemma find_index_from_bound:
  "find_index_from P xs k = Some i \<Longrightarrow> k \<le> i \<and> i - k < length xs \<and> P (xs ! (i - k))"
proof (induction xs arbitrary: k)
  case Nil
  then show ?case by simp
next
  case (Cons x xs)
  show ?case
  proof (cases "P x")
    case True
    with Cons.prems show ?thesis by simp
  next
    case False
    with Cons.prems have "find_index_from P xs (Suc k) = Some i" by simp
    from Cons.IH [OF this] have "Suc k \<le> i" "i - Suc k < length xs" "P (xs ! (i - Suc k))"
      by auto
    moreover from \<open>Suc k \<le> i\<close> have "i - k = Suc (i - Suc k)" by simp
    ultimately show ?thesis by simp
  qed
qed

lemma merge_className_style:
  assumes "merge_className cns attrs = Inr attrs'"
  shows "find_index_from (isAttributeNamed ''style'') attrs' 0 =
           find_index_from (isAttributeNamed ''style'') attrs 0 \<and>
         (\<forall>i. find_index_from (isAttributeNamed ''style'') attrs 0 = Some i \<longrightarrow> attrs' ! i = attrs ! i)"
proof -
  let ?new = "JSXAttribute ''className'' (Some (ax_call (map StringLiteral cns)))"
  have new: "\<not> isAttributeNamed ''style'' ?new" by (simp add: isAttributeNamed_def)
  have app: "find_index_from (isAttributeNamed ''style'') (attrs @ [?new]) 0 =
           find_index_from (isAttributeNamed ''style'') attrs 0 \<and>
         (\<forall>i. find_index_from (isAttributeNamed ''style'') attrs 0 = Some i \<longrightarrow>
            (attrs @ [?new]) ! i = attrs ! i)"
  proof (intro conjI allI impI)
    show "find_index_from (isAttributeNamed ''style'') (attrs @ [?new]) 0 =
           find_index_from (isAttributeNamed ''style'') attrs 0"
      using new by (rule find_index_from_append [where P = "isAttributeNamed ''style''"])
  next
    fix i
    assume "find_index_from (isAttributeNamed ''style'') attrs 0 = Some i"
    from find_index_from_bound [OF this] have "i < length attrs" by simp
    then show "(attrs @ [?new]) ! i = attrs ! i" by (simp add: nth_append)
  qed
  show ?thesis
  proof (cases "find_index_from (isAttributeNamed ''className'') attrs 0")
    case None
    with assms have "attrs' = attrs @ [?new]" by (simp add: merge_className_def)
    with app show ?thesis by simp
  next
    case (Some j)
    from find_index_from_bound [OF Some] have j: "j < length attrs"
      and cn: "isAttributeNamed ''className'' (attrs ! j)" by simp_all
    show ?thesis
    proof (cases "attrs ! j")
      case (JSXSpreadAttribute e)
      with cn show ?thesis by (simp add: isAttributeNamed_def)
    next
      case (JSXAttribute n v)
      with cn have n: "n = ''className''" by (simp add: isAttributeNamed_def)
      show ?thesis
      proof (cases v)
        case None
        with assms Some JSXAttribute have "attrs' = attrs @ [?new]"
          by (simp add: merge_className_def)
        with app show ?thesis by simp
      next
        case (Some val)
        with assms \<open>find_index_from (isAttributeNamed ''className'') attrs 0 = Some j\<close> JSXAttribute
        obtain e where upd: "attrs' = attrs[j := JSXAttribute n (Some (ax_call (map StringLiteral cns @ [e])))]"
          by (auto simp: merge_className_def split: sum.splits)
        have same: "map (isAttributeNamed ''style'') attrs' = map (isAttributeNamed ''style'') attrs"
          unfolding upd using j JSXAttribute n
          by (simp add: map_update isAttributeNamed_def list_update_same_conv)
        have idx: "find_index_from (isAttributeNamed ''style'') attrs' 0 =
            find_index_from (isAttributeNamed ''style'') attrs 0"
          by (rule find_index_from_map [OF same])
        have "attrs' ! i = attrs ! i"
          if "find_index_from (isAttributeNamed ''style'') attrs 0 = Some i" for i
        proof -
          from find_index_from_bound [OF that] have "isAttributeNamed ''style'' (attrs ! i)" by simp
          with JSXAttribute n have "i \<noteq> j" by (auto simp: isAttributeNamed_def)
          then show ?thesis unfolding upd by simp
        qed
        with idx show ?thesis by blast
      qed
    qed
  qed
qed

lemma merge_style_object:
  assumes "find_index_from (isAttributeNamed ''style'') attrs 0 = Some i"
    and "attrs ! i = JSXAttribute n (Some (JSXExpressionContainer (Expression (ObjectExpression ps))))"
    and "vars \<noteq> []"
  shows "merge_style vars attrs =
     splice_remove i attrs @
     [style_attribute (forEach_splice ps 0 (fst (buildCssVariablesProp vars default_transform ())))]"
  using assms by (simp add: merge_style_def style_attribute_def Let_def)


lemma variable_properties_eq:
  "fst (buildCssVariablesProp vars default_transform ()) = variable_properties vars"
  by (simp add: variable_properties_def buildCssVariablesProp_default_first)

lemma buildCompiledComponent_Inr:
  assumes "buildCompiledComponent transformCss node cssOutput meta = Inr (r, meta')"
  shows "\<exists>attrs'. merge_className (fst (transformCss (css cssOutput))) (attributes node) = Inr attrs' \<and>
           attributes (jsxNode r) = merge_style (variables cssOutput) attrs'"
  using assms
  by (auto simp: buildCompiledComponent_def compiledTemplate_def split_def Let_def
      split: sum.splits)

lemma buildCompiledComponent_Inl:
  assumes "buildCompiledComponent transformCss node cssOutput meta = Inl e"
  shows "merge_className (fst (transformCss (css cssOutput))) (attributes node) = Inl e \<or>
         hoistSheets (snd (transformCss (css cssOutput))) meta = Inl e"
  using assms
  by (auto simp: buildCompiledComponent_def compiledTemplate_def split_def Let_def
      split: sum.splits)

lemmas hoist_eval =
  hoistSheet_def sheets_lookup_def Object_prototype_keys_def generateUidIdentifier_def
  generateUid_loop.simps in_use_def uid_name_def decimal.simps digit_char_def Let_def
  example_meta_def pre_def

lemmas builder_eval =
  buildCompiledComponent_def merge_className_def merge_style_def buildCssVariablesProp_def
  unique_def default_transform_def splice_insert_def splice_remove_def compiledTemplate_def
  nonceAttribute_of_def isAttributeNamed_def ax_call_def style_attribute_def getPropValue_def
  example_transformCss_def example_cssOutput_def example_element_def

lemma example_plain:
  "buildCompiledComponent example_transformCss
     (example_element [ObjectProperty (Identifier ''margin'') (NumericLiteral 0),
                       SpreadElement (Identifier ''base'')])
     example_cssOutput example_meta =
   Inr (\<lparr>cc_nonceAttribute = [],
         cc_cssNode = [SheetIdentifier ''_''],
         jsxNode =
           \<lparr>elementName = ''div'',
            attributes =
              [JSXAttribute ''id'' (Some (Literal (StringLiteral ''a''))),
               JSXAttribute ''className''
                 (Some (JSXExpressionContainer (Expression
                    (CallExpression (Identifier ''ax'')
                       [ArrayExpression [StringLiteral ''_syaz1q9v'']])))),
               style_attribute
                 [ObjectProperty (Identifier ''margin'') (NumericLiteral 0),
                  SpreadElement (Identifier ''base''),
                  ObjectProperty (StringLiteral ''--var-color'') (Identifier ''color'')]],
            children = ''hello world''\<rparr>\<rparr>,
        example_meta
          \<lparr>state := (state example_meta)
             \<lparr>sheets := [''._syaz1q9v{color:var(--var-color)}'' \<mapsto> ''_'']\<rparr>,
           program := (program example_meta)
             \<lparr>body := [ImportDeclaration [] ''@compiled/core'',
                       ImportDeclaration [ImportDefaultSpecifier ''React''] ''react'',
                       VariableDeclaration ''const'' ''_''
                         (StringLiteral ''._syaz1q9v{color:var(--var-color)}''),
                       OtherStatement [JSXOpeningSite 0, JSXOpeningSite 1]],
              references := [''_'']\<rparr>\<rparr>)"
  by (simp add: builder_eval hoist_eval)

lemma example_method:
  "buildCompiledComponent example_transformCss
     (example_element [ObjectMethod ''get'' (Identifier ''top''),
                       ObjectProperty (Identifier ''margin'') (NumericLiteral 0)])
     example_cssOutput example_meta =
   Inr (\<lparr>cc_nonceAttribute = [],
         cc_cssNode = [SheetIdentifier ''_''],
         jsxNode =
           \<lparr>elementName = ''div'',
            attributes =
              [JSXAttribute ''id'' (Some (Literal (StringLiteral ''a''))),
               JSXAttribute ''className''
                 (Some (JSXExpressionContainer (Expression
                    (CallExpression (Identifier ''ax'')
                       [ArrayExpression [StringLiteral ''_syaz1q9v'']])))),
               style_attribute
                 [ObjectProperty (StringLiteral ''--var-color'') (Identifier ''color''),
                  ObjectProperty (Identifier ''margin'') (NumericLiteral 0)]],
            children = ''hello world''\<rparr>\<rparr>,
        example_meta
          \<lparr>state := (state example_meta)
             \<lparr>sheets := [''._syaz1q9v{color:var(--var-color)}'' \<mapsto> ''_'']\<rparr>,
           program := (program example_meta)
             \<lparr>body := [ImportDeclaration [] ''@compiled/core'',
                       ImportDeclaration [ImportDefaultSpecifier ''React''] ''react'',
                       VariableDeclaration ''const'' ''_''
                         (StringLiteral ''._syaz1q9v{color:var(--var-color)}''),
                       OtherStatement [JSXOpeningSite 0, JSXOpeningSite 1]],
              references := [''_'']\<rparr>\<rparr>)"
  by (simp add: builder_eval hoist_eval)

text \<open>
  C8 (as amended). Let the first \<open>style\<close> attribute of the element hold an object expression
  none of whose members is an object method, and let \<open>buildCompiledComponent\<close> return. With
  at least one variable the returned element has that attribute removed and, as its last
  attribute, a \<open>style\<close> attribute whose object holds the members of the original object in
  their order followed by the properties of the CSS variables; with no variable the
  attributes are those the class-name step left, the \<open>style\<close> attribute among them as it was.
\<close>

theorem buildCompiledComponent_style_merge:
  assumes "find_index_from (isAttributeNamed ''style'') (attributes node) 0 = Some i"
    and "attributes node ! i =
           JSXAttribute n (Some (JSXExpressionContainer (Expression (ObjectExpression ps))))"
    and "\<forall>p \<in> set ps. \<not> isObjectMethod p"
    and "buildCompiledComponent transformCss node cssOutput meta = Inr (r, meta')"
  shows "\<exists>attrs'.
           merge_className (fst (transformCss (css cssOutput))) (attributes node) = Inr attrs' \<and>
           attrs' ! i = attributes node ! i \<and>
           attributes (jsxNode r) =
             (if variables cssOutput = [] then attrs'
              else splice_remove i attrs' @
                   [style_attribute (ps @ variable_properties (variables cssOutput))])"
proof -
  from buildCompiledComponent_Inr [OF assms(4)]
  obtain attrs' where cn: "merge_className (fst (transformCss (css cssOutput))) (attributes node) = Inr attrs'"
    and out: "attributes (jsxNode r) = merge_style (variables cssOutput) attrs'"
    by blast
  from merge_className_style [OF cn] assms(1)
  have idx: "find_index_from (isAttributeNamed ''style'') attrs' 0 = Some i"
    and same: "attrs' ! i = attributes node ! i" by simp_all
  have "merge_style (variables cssOutput) attrs' =
          splice_remove i attrs' @
          [style_attribute (ps @ variable_properties (variables cssOutput))]"
    if "variables cssOutput \<noteq> []"
  proof -
    have "forEach_splice ps 0 ([] @ variable_properties (variables cssOutput)) =
        [] @ ps @ variable_properties (variables cssOutput)"
      by (rule forEach_splice_plain [OF assms(3)]) simp
    then show ?thesis
      using merge_style_object [OF idx _ that, of n ps] same assms(2)
      by (simp add: variable_properties_eq)
  qed
  moreover have "merge_style [] attrs' = attrs'" by (simp add: merge_style_def)
  ultimately have "attributes (jsxNode r) =
             (if variables cssOutput = [] then attrs'
              else splice_remove i attrs' @
                   [style_attribute (ps @ variable_properties (variables cssOutput))])"
    using out by simp
  with cn same show ?thesis by blast
qed

theorem buildCompiledComponent_style_merge_witness:
  "find_index_from (isAttributeNamed ''style'')
     (attributes (example_element [ObjectProperty (Identifier ''margin'') (NumericLiteral 0),
                                   SpreadElement (Identifier ''base'')])) 0 = Some 1 \<and>
   \<not> isObjectMethod (ObjectProperty (Identifier ''margin'') (NumericLiteral 0)) \<and>
   \<not> isObjectMethod (SpreadElement (Identifier ''base'')) \<and>
   map_sum id (attributes \<circ> jsxNode \<circ> fst)
     (buildCompiledComponent example_transformCss
        (example_element [ObjectProperty (Identifier ''margin'') (NumericLiteral 0),
                          SpreadElement (Identifier ''base'')])
        example_cssOutput example_meta) =
   Inr [JSXAttribute ''id'' (Some (Literal (StringLiteral ''a''))),
        JSXAttribute ''className'' (Some (ax_call [StringLiteral ''_syaz1q9v''])),
        style_attribute
          [ObjectProperty (Identifier ''margin'') (NumericLiteral 0),
           SpreadElement (Identifier ''base''),
           ObjectProperty (StringLiteral ''--var-color'') (Identifier ''color'')]]"
proof -
  let ?ps = "[ObjectProperty (Identifier ''margin'') (NumericLiteral 0),
              SpreadElement (Identifier ''base'')]"
  have h1: "find_index_from (isAttributeNamed ''style'') (attributes (example_element ?ps)) 0 = Some 1"
    by (simp add: example_element_def isAttributeNamed_def)
  have h2: "attributes (example_element ?ps) ! 1 =
      JSXAttribute ''style'' (Some (JSXExpressionContainer (Expression (ObjectExpression ?ps))))"
    by (simp add: example_element_def)
  have h3: "\<forall>p \<in> set ?ps. \<not> isObjectMethod p" by simp
  from buildCompiledComponent_style_merge [OF h1 h2 h3 example_plain]
  obtain attrs' where
    cn: "merge_className (fst (example_transformCss (css example_cssOutput)))
           (attributes (example_element ?ps)) = Inr attrs'"
    by blast
  show ?thesis
    using h1 h3 cn by (simp add: example_plain ax_call_def)
qed

theorem buildCompiledComponent_style_merge_counterexample:
  "map_sum id (attributes \<circ> jsxNode \<circ> fst)
     (buildCompiledComponent example_transformCss
        (example_element [ObjectMethod ''get'' (Identifier ''top''),
                          ObjectProperty (Identifier ''margin'') (NumericLiteral 0)])
        example_cssOutput example_meta) =
   Inr [JSXAttribute ''id'' (Some (Literal (StringLiteral ''a''))),
        JSXAttribute ''className'' (Some (ax_call [StringLiteral ''_syaz1q9v''])),
        style_attribute
          [ObjectProperty (StringLiteral ''--var-color'') (Identifier ''color''),
           ObjectProperty (Identifier ''margin'') (NumericLiteral 0)]] \<and>
   [ObjectProperty (StringLiteral ''--var-color'') (Identifier ''color''),
    ObjectProperty (Identifier ''margin'') (NumericLiteral 0)] \<noteq>
   [ObjectMethod ''get'' (Identifier ''top''),
    ObjectProperty (Identifier ''margin'') (NumericLiteral 0)] @
   variable_properties (variables example_cssOutput)"
  by (simp add: example_method ax_call_def)

text \<open>
  C10. Let the first \<open>style\<close> attribute of the element hold an object expression and let
  there be at least one variable. When \<open>buildCompiledComponent\<close> returns, the last attribute
  of the element is a \<open>style\<close> attribute whose object holds, counted with multiplicity, the
  members of the original object that are not object methods and the properties of the CSS
  variables, and no object method. When it throws, the exception is that of the class-name
  step or of the hoister: an object method raises none.
\<close>

theorem buildCompiledComponent_drops_object_methods:
  assumes "find_index_from (isAttributeNamed ''style'') (attributes node) 0 = Some i"
    and "attributes node ! i =
           JSXAttribute n (Some (JSXExpressionContainer (Expression (ObjectExpression ps))))"
    and "variables cssOutput \<noteq> []"
  shows "case buildCompiledComponent transformCss node cssOutput meta of
           Inr (r, meta') \<Rightarrow>
             (\<exists>qs. last (attributes (jsxNode r)) = style_attribute qs \<and>
                   mset qs = mset (filter (\<lambda>p. \<not> isObjectMethod p) ps) +
                             mset (variable_properties (variables cssOutput)) \<and>
                   (\<forall>q \<in> set qs. \<not> isObjectMethod q))
         | Inl e \<Rightarrow>
             merge_className (fst (transformCss (css cssOutput))) (attributes node) = Inl e \<or>
             hoistSheets (snd (transformCss (css cssOutput))) meta = Inl e"
proof (cases "buildCompiledComponent transformCss node cssOutput meta")
  case (Inl e)
  with buildCompiledComponent_Inl [OF Inl] show ?thesis by simp
next
  case (Inr res)
  obtain r meta' where res: "res = (r, meta')" by (cases res)
  from buildCompiledComponent_Inr [OF Inr [unfolded res]]
  obtain attrs' where cn: "merge_className (fst (transformCss (css cssOutput))) (attributes node) = Inr attrs'"
    and out: "attributes (jsxNode r) = merge_style (variables cssOutput) attrs'"
    by blast
  from merge_className_style [OF cn] assms(1)
  have idx: "find_index_from (isAttributeNamed ''style'') attrs' 0 = Some i"
    and same: "attrs' ! i = attributes node ! i" by simp_all
  let ?qs = "forEach_splice ps 0 (variable_properties (variables cssOutput))"
  have m: "merge_style (variables cssOutput) attrs' = splice_remove i attrs' @ [style_attribute ?qs]"
    using merge_style_object [OF idx _ assms(3), of n ps] same assms(2)
    by (simp add: variable_properties_eq)
  have l: "last (attributes (jsxNode r)) = style_attribute ?qs"
    unfolding out m by simp
  have ms: "mset ?qs = mset (filter (\<lambda>p. \<not> isObjectMethod p) ps) +
                       mset (variable_properties (variables cssOutput))"
    by (rule forEach_splice_mset)
  have "\<forall>q \<in> set (variable_properties (variables cssOutput)). \<not> isObjectMethod q"
    by (auto simp: variable_properties_def)
  then have nm: "\<forall>q \<in> set ?qs. \<not> isObjectMethod q"
    by (rule forEach_splice_no_method)
  from l ms nm show ?thesis
    unfolding Inr res by auto
qed

theorem buildCompiledComponent_drops_object_methods_witness:
  "find_index_from (isAttributeNamed ''style'')
     (attributes (example_element [ObjectMethod ''get'' (Identifier ''top''),
                                   ObjectProperty (Identifier ''margin'') (NumericLiteral 0)])) 0 = Some 1 \<and>
   variables example_cssOutput \<noteq> [] \<and>
   map_sum id (last \<circ> attributes \<circ> jsxNode \<circ> fst)
     (buildCompiledComponent example_transformCss
        (example_element [ObjectMethod ''get'' (Identifier ''top''),
                          ObjectProperty (Identifier ''margin'') (NumericLiteral 0)])
        example_cssOutput example_meta) =
   Inr (style_attribute
          [ObjectProperty (StringLiteral ''--var-color'') (Identifier ''color''),
           ObjectProperty (Identifier ''margin'') (NumericLiteral 0)])"
proof -
  let ?ps = "[ObjectMethod ''get'' (Identifier ''top''),
              ObjectProperty (Identifier ''margin'') (NumericLiteral 0)]"
  have h1: "find_index_from (isAttributeNamed ''style'') (attributes (example_element ?ps)) 0 = Some 1"
    by (simp add: example_element_def isAttributeNamed_def)
  have h2: "attributes (example_element ?ps) ! 1 =
      JSXAttribute ''style'' (Some (JSXExpressionContainer (Expression (ObjectExpression ?ps))))"
    by (simp add: example_element_def)
  have h3: "variables example_cssOutput \<noteq> []" by (simp add: example_cssOutput_def)
  from buildCompiledComponent_drops_object_methods
    [OF h1 h2 h3, of example_transformCss example_meta]
  have "\<exists>qs. style_attribute
          [ObjectProperty (StringLiteral ''--var-color'') (Identifier ''color''),
           ObjectProperty (Identifier ''margin'') (NumericLiteral 0)] = style_attribute qs"
    by (auto simp: example_method)
  then show ?thesis
    using h1 h3 by (simp add: example_method)
qed

section \<open>The empty JSX expression\<close>

text \<open>
  C9 (as amended). On an expression container that holds the empty expression,
  \<open>getPropValue\<close> throws an \<open>Error\<close> whose message is \<open>Empty expression not supported.\<close>:
  it names the construct and is the same wherever the expression stands; on every other
  value it returns the expression. \<open>buildCompiledComponent\<close> throws this error when the
  value of the first \<open>className\<close> attribute of the element is the empty expression.
\<close>

theorem getPropValue_empty_expression:
  assumes "find_index_from (isAttributeNamed ''className'') (attributes node) 0 = Some i"
    and "attributes node ! i =
           JSXAttribute n (Some (JSXExpressionContainer (JSXEmptyExpression l)))"
  shows "getPropValue (JSXExpressionContainer (JSXEmptyExpression l')) =
           Inl (Error ''Empty expression not supported.'') \<and>
         getPropValue (JSXExpressionContainer (Expression e)) = Inr e \<and>
         getPropValue (Literal e) = Inr e \<and>
         buildCompiledComponent transformCss node cssOutput meta =
           Inl (Error ''Empty expression not supported.'')"
  using assms
  by (simp add: getPropValue_def merge_className_def buildCompiledComponent_def split_def)

theorem getPropValue_empty_expression_witness:
  "find_index_from (isAttributeNamed ''className'')
     [JSXAttribute ''id'' (Some (Literal (StringLiteral ''a''))),
      JSXAttribute ''className'' (Some (JSXExpressionContainer (JSXEmptyExpression (3, 14))))] 0 =
     Some 1 \<and>
   buildCompiledComponent example_transformCss
     \<lparr>elementName = ''div'',
      attributes =
        [JSXAttribute ''id'' (Some (Literal (StringLiteral ''a''))),
         JSXAttribute ''className'' (Some (JSXExpressionContainer (JSXEmptyExpression (3, 14))))],
      children = ''hello world''\<rparr>
     example_cssOutput example_meta =
   Inl (Error ''Empty expression not supported.'')"
proof -
  let ?node = "\<lparr>elementName = ''div'',
      attributes =
        [JSXAttribute ''id'' (Some (Literal (StringLiteral ''a''))),
         JSXAttribute ''className'' (Some (JSXExpressionContainer (JSXEmptyExpression (3, 14))))],
      children = ''hello world''\<rparr>"
  have h1: "find_index_from (isAttributeNamed ''className'') (attributes ?node) 0 = Some 1"
    by (simp add: isAttributeNamed_def)
  have h2: "attributes ?node ! 1 =
      JSXAttribute ''className'' (Some (JSXExpressionContainer (JSXEmptyExpression (3, 14))))"
    by simp
  from getPropValue_empty_expression [OF h1 h2, of _ _ example_transformCss example_cssOutput example_meta]
    h1 show ?thesis by simp
qed

theorem getPropValue_location_counterexample:
  "getPropValue (JSXExpressionContainer (JSXEmptyExpression (3, 14))) =
     getPropValue (JSXExpressionContainer (JSXEmptyExpression (27, 9))) \<and>
   getPropValue (JSXExpressionContainer (JSXEmptyExpression (3, 14))) =
     Inl (Error ''Empty expression not supported.'') \<and>
   ((3, 14) :: loc) \<noteq> (27, 9)"
  by (simp add: getPropValue_def)


section \<open>The styled template: destructured props\<close>






















lemmas styled_eval =
  styledTemplate_def styledStyleProp_def buildCssVariablesProp_def unique_def
  styled_transform_def traverseStyledArrowFunctionExpression_def
  traverseStyledBinaryExpression_def traverse_def pickFunctionBody_def nonceAttribute_of_def
  template_parses_def reserved_words_def example_isPropValid_def example_opts_def







text \<open>
  A destructured name that the parameters cannot bind: \<open>props => props.class\<close> makes
  \<open>template()\<close> throw, and so does \<open>props => props.ref\<close>.
\<close>

lemma example_styled_reserved:
  "styledTemplate example_isPropValid
     (example_opts
        (ArrowFunctionExpression [''props''] (MemberExpression (Identifier ''props'') ''class'')))
     example_meta = Inl SyntaxError \<and>
   styledTemplate example_isPropValid
     (example_opts
        (ArrowFunctionExpression [''props''] (MemberExpression (Identifier ''props'') ''ref'')))
     example_meta = Inl SyntaxError"
  by (simp add: styled_eval hoist_eval)


end
